theory Spec2Isabelle
  imports Complex_Main "HOL-Library.Word" "HOL-Library.Sublist" "HOL-Library.List_Lexorder"
begin

section \<open>Data model of the Matrix transport\<close>

text \<open>
  The development embeds \<^verbatim>\<open>raiden/network/transport/matrix/transport.py\<close>.
  Python \<^verbatim>\<open>bytes\<close> are lists of 8-bit words; the order of \<^verbatim>\<open>bytes\<close> is the
  lexicographic order of lists. Matrix identifiers are strings. A \<^verbatim>\<open>User\<close> object is
  represented by its user id (its display name lives in the display name cache, which only
  the validation function reads).
\<close>

type_synonym byte = "8 word"
type_synonym address = "byte list"
type_synonym signature = "byte list"
type_synonym room_id = string
type_synonym user_id = string

datatype error =
    ValueError
  | AssertionError
  | RuntimeError
  | UnboundLocalError
  | AttributeError
  | TypeError
  | MatrixRequestError nat
  | TransportError

text \<open>
  A \<^verbatim>\<open>Room\<close> of the Matrix client, with the attributes the transport reads.
  \<^verbatim>\<open>invite_only\<close> is \<^verbatim>\<open>None\<close> until the join rules are known; the transport only
  tests its truth value, so it is a boolean here.
\<close>

record room =
  room_id :: room_id
  aliases :: "string list"
  canonical_alias :: "string option"
  invite_only :: bool
  joined_members :: "user_id list"

text \<open>
  The part of \<^verbatim>\<open>MatrixTransport\<close> that holds rooms: the configured broadcast room
  suffixes, the rooms of the client (\<^verbatim>\<open>self._client.rooms\<close>, a dict) and
  \<^verbatim>\<open>self._address_to_room_ids\<close>, a \<^verbatim>\<open>defaultdict(list)\<close>: a total function
  whose default is the empty list.
\<close>

record room_state =
  broadcast_rooms :: "string list"
  client_rooms :: "room_id \<rightharpoonup> room"
  address_to_room_ids :: "address \<Rightarrow> room_id list"

subsection \<open>Broadcast room detection\<close>

text \<open>
  \<^verbatim>\<open>_is_broadcast_room\<close>: the set \<^verbatim>\<open>room_aliases\<close> is built from the aliases and the
  canonical alias (when it is truthy: neither \<^verbatim>\<open>None\<close> nor empty), but the generator
  passed to \<^verbatim>\<open>any\<close> ranges over \<^verbatim>\<open>room.aliases\<close>. Python's \<^verbatim>\<open>suffix in room_alias\<close> on
  strings is the contiguous substring test.
\<close>

definition is_broadcast_room :: "string list \<Rightarrow> room \<Rightarrow> bool" where
  "is_broadcast_room bsuffixes r =
     (let room_aliases =
            set (aliases r) \<union>
            (case canonical_alias r of
               None \<Rightarrow> {}
             | Some c \<Rightarrow> if c \<noteq> [] then {c} else {})
      in list_ex (\<lambda>suffix. list_ex (\<lambda>room_alias. sublist suffix room_alias) (aliases r))
           bsuffixes)"

text \<open>
  What the specification describes: any alias, the canonical alias included, contains any
  configured suffix.
\<close>

definition all_room_aliases :: "room \<Rightarrow> string list" where
  "all_room_aliases r =
     aliases r @ (case canonical_alias r of None \<Rightarrow> [] | Some c \<Rightarrow> [c])"

definition is_broadcast_room_spec :: "string list \<Rightarrow> room \<Rightarrow> bool" where
  "is_broadcast_room_spec bsuffixes r =
     list_ex (\<lambda>suffix. list_ex (\<lambda>room_alias. sublist suffix room_alias) (all_room_aliases r))
       bsuffixes"

definition room_with_canonical_alias_only :: room where
  "room_with_canonical_alias_only =
     \<lparr>room_id = ''!abc:server'', aliases = [],
      canonical_alias = Some ''#raiden_1_discovery:server'',
      invite_only = False, joined_members = []\<rparr>"

subsection \<open>Room ids of an address\<close>

text \<open>
  \<^verbatim>\<open>_get_room_ids_for_address\<close> filters the stored list on read: only ids of rooms the
  client knows and that are invite-only.
\<close>

definition room_is_private :: "'a room_state_scheme \<Rightarrow> room_id \<Rightarrow> bool" where
  "room_is_private T rid =
     (case client_rooms T rid of None \<Rightarrow> False | Some r \<Rightarrow> invite_only r)"

definition get_room_ids_for_address :: "'a room_state_scheme \<Rightarrow> address \<Rightarrow> room_id list" where
  "get_room_ids_for_address T a = filter (room_is_private T) (address_to_room_ids T a)"

text \<open>
  \<^verbatim>\<open>_set_room_id_for_address\<close>: the assertion accepts an empty room id or one the client
  knows; then the room id is pushed to the front of the filtered list and the result is
  stored.
\<close>

definition set_room_id_for_address ::
  "address \<Rightarrow> room_id \<Rightarrow> 'a room_state_scheme \<Rightarrow> error option \<times> 'a room_state_scheme" where
  "set_room_id_for_address a rid T =
     (if \<not> (rid = [] \<or> rid \<in> dom (client_rooms T)) then (Some AssertionError, T)
      else
        let room_ids = get_room_ids_for_address T a;
            room_ids = rid # filter (\<lambda>r. r \<noteq> rid) room_ids
        in (None, T\<lparr>address_to_room_ids := (address_to_room_ids T)(a := room_ids)\<rparr>))"

text \<open>
  The states of the room map that a transport can be in. \<^verbatim>\<open>__init__\<close> creates the empty
  \<^verbatim>\<open>defaultdict\<close>; \<^verbatim>\<open>_set_room_id_for_address\<close> holds the only assignment into
  \<^verbatim>\<open>_address_to_room_ids\<close> (every reader works on the copy the filter returns);
  everything else, the rooms of the client included, changes without touching the map.
\<close>

inductive reachable_rooms :: "'a room_state_scheme \<Rightarrow> bool" where
  init: "address_to_room_ids T = (\<lambda>_. []) \<Longrightarrow> reachable_rooms T"
| other: "reachable_rooms T \<Longrightarrow> address_to_room_ids T' = address_to_room_ids T \<Longrightarrow>
     reachable_rooms T'"
| set_room: "reachable_rooms T \<Longrightarrow> set_room_id_for_address a rid T = (None, T') \<Longrightarrow>
     reachable_rooms T'"

section \<open>Messages, queue identifiers and the retry queue\<close>

subsection \<open>Messages\<close>

text \<open>
  The message classes are declared outside the transport; the transport distinguishes them
  with \<^verbatim>\<open>isinstance\<close> and reads \<^verbatim>\<open>message_identifier\<close>, \<^verbatim>\<open>sender\<close> and the
  signature. The constructors follow the class hierarchy the transport imports:
  \<^verbatim>\<open>Delivered\<close>, \<^verbatim>\<open>Ping\<close> and \<^verbatim>\<open>Pong\<close> carry no \<^verbatim>\<open>message_identifier\<close>;
  \<^verbatim>\<open>Processed\<close> is a \<^verbatim>\<open>SignedRetrieableMessage\<close>, which is a \<^verbatim>\<open>RetrieableMessage\<close>;
  the constructor \<^verbatim>\<open>SignedRetrieableMessage\<close> stands for every other signed retrieable
  class (its first field is the class-specific content), \<^verbatim>\<open>RetrieableMessage\<close> for a
  retrieable message that is not signed and \<^verbatim>\<open>Message\<close> for every other message.
  Equality of messages is equality of their contents.
\<close>

datatype message =
    Delivered nat signature
  | Ping nat signature
  | Pong nat signature
  | Processed nat signature
  | SignedRetrieableMessage string nat signature
  | RetrieableMessage string nat
  | Message string

text \<open>\<^verbatim>\<open>isinstance(message, (Delivered, Ping, Pong))\<close>\<close>

fun isinstance_Delivered_Ping_Pong :: "message \<Rightarrow> bool" where
  "isinstance_Delivered_Ping_Pong (Delivered _ _) = True"
| "isinstance_Delivered_Ping_Pong (Ping _ _) = True"
| "isinstance_Delivered_Ping_Pong (Pong _ _) = True"
| "isinstance_Delivered_Ping_Pong _ = False"

fun isinstance_RetrieableMessage :: "message \<Rightarrow> bool" where
  "isinstance_RetrieableMessage (Processed _ _) = True"
| "isinstance_RetrieableMessage (SignedRetrieableMessage _ _ _) = True"
| "isinstance_RetrieableMessage (RetrieableMessage _ _) = True"
| "isinstance_RetrieableMessage _ = False"

text \<open>\<^verbatim>\<open>isinstance(message, (Processed, SignedRetrieableMessage))\<close>\<close>

fun isinstance_Processed_SignedRetrieableMessage :: "message \<Rightarrow> bool" where
  "isinstance_Processed_SignedRetrieableMessage (Processed _ _) = True"
| "isinstance_Processed_SignedRetrieableMessage (SignedRetrieableMessage _ _ _) = True"
| "isinstance_Processed_SignedRetrieableMessage _ = False"

text \<open>The attribute \<^verbatim>\<open>message_identifier\<close>; \<^verbatim>\<open>None\<close> where the class has none.\<close>

fun message_identifier :: "message \<Rightarrow> nat option" where
  "message_identifier (Processed i _) = Some i"
| "message_identifier (SignedRetrieableMessage _ i _) = Some i"
| "message_identifier (RetrieableMessage _ i) = Some i"
| "message_identifier _ = None"

subsection \<open>Queue identifiers\<close>

datatype canonical_identifier =
  CanonicalIdentifier (chain_identifier: nat) (token_network_address: address)
    (channel_identifier: nat)

datatype queue_identifier =
  QueueIdentifier (recipient: address) (canonical_identifier: canonical_identifier)

text \<open>
  Modelled from the spec: \<^verbatim>\<open>CANONICAL_IDENTIFIER_UNORDERED_QUEUE\<close> is declared in
  \<^verbatim>\<open>raiden.transfer.identifiers\<close>; the specification calls it the distinguished value
  used for acknowledgements and health messages. Any fixed value serves.
\<close>

definition CANONICAL_IDENTIFIER_UNORDERED_QUEUE :: canonical_identifier where
  "CANONICAL_IDENTIFIER_UNORDERED_QUEUE = CanonicalIdentifier 0 (replicate 20 0) 0"

subsection \<open>Expiration generators\<close>

text \<open>
  Modelled from the spec: \<^verbatim>\<open>timeout_exponential_backoff\<close> lives in
  \<^verbatim>\<open>raiden.network.transport.utils\<close>. The specification: the first
  \<^verbatim>\<open>retries_before_backoff\<close> intervals equal \<^verbatim>\<open>retry_interval\<close>, then the interval
  doubles each step up to the ceiling, then holds. The generator never ends, so it is
  the function from the position to the timeout.
\<close>

definition timeout_exponential_backoff :: "nat \<Rightarrow> real \<Rightarrow> real \<Rightarrow> nat \<Rightarrow> real" where
  "timeout_exponential_backoff retries timeout maximum n =
     (if n < retries then timeout else min maximum (timeout * 2 ^ (n - retries + 1)))"

text \<open>
  \<^verbatim>\<open>_expiration_generator\<close> is a Python generator: its state is the timeout generator it
  consumes (the three parameters and the number of timeouts fetched so far) and the local
  \<^verbatim>\<open>_next\<close>, unset before the first \<^verbatim>\<open>next()\<close>. One call of \<^verbatim>\<open>next()\<close> at clock
  reading \<^verbatim>\<open>now\<close>: the first call fetches a timeout, sets \<^verbatim>\<open>_next\<close> and yields True; a
  later call yields False while \<^verbatim>\<open>now < _next\<close>, and otherwise fetches the next timeout,
  sets \<^verbatim>\<open>_next\<close> and yields True. The clock is read once per call here. Time is a real
  number of seconds.
\<close>

record expiration_generator =
  eg_retries :: nat
  eg_timeout :: real
  eg_maximum :: real
  eg_fetched :: nat
  eg_next :: "real option"

definition fetch_timeout :: "real \<Rightarrow> expiration_generator \<Rightarrow> expiration_generator" where
  "fetch_timeout now g =
     g\<lparr>eg_next :=
         Some (now + timeout_exponential_backoff (eg_retries g) (eg_timeout g) (eg_maximum g)
                 (eg_fetched g)),
       eg_fetched := Suc (eg_fetched g)\<rparr>"

definition expiration_generator_next ::
  "real \<Rightarrow> expiration_generator \<Rightarrow> bool \<times> expiration_generator" where
  "expiration_generator_next now g =
     (case eg_next g of
        None \<Rightarrow> (True, fetch_timeout now g)
      | Some deadline \<Rightarrow> if now < deadline then (False, g) else (True, fetch_timeout now g))"

subsection \<open>The retry queue\<close>

text \<open>\<^verbatim>\<open>_RetryQueue._MessageData\<close>\<close>

record message_data =
  md_queue_identifier :: queue_identifier
  md_message :: message
  md_text :: string
  md_expiration_generator :: expiration_generator

text \<open>
  \<^verbatim>\<open>_RetryQueue\<close>: the receiver, the buffer \<^verbatim>\<open>_message_queue\<close>, whether
  \<^verbatim>\<open>_notify_event\<close> is set, the counter \<^verbatim>\<open>_idle_since\<close>, and whether its greenlet has
  finished (\<^verbatim>\<open>greenlet.ready()\<close>).
\<close>

record retry_queue =
  receiver :: address
  message_queue :: "message_data list"
  notify_event :: bool
  idle_since :: nat
  greenlet_ready :: bool

definition RETRY_QUEUE_IDLE_AFTER :: nat where
  "RETRY_QUEUE_IDLE_AFTER = 10"

definition is_idle :: "retry_queue \<Rightarrow> bool" where
  "is_idle q \<longleftrightarrow> idle_since q \<ge> RETRY_QUEUE_IDLE_AFTER"

text \<open>\<^verbatim>\<open>_RetryQueue.__init__\<close>\<close>

definition new_retry_queue :: "address \<Rightarrow> retry_queue" where
  "new_retry_queue a =
     \<lparr>receiver = a, message_queue = [], notify_event = False, idle_since = 0,
      greenlet_ready = False\<rparr>"

subsection \<open>The transport\<close>

datatype AddressReachability = REACHABLE | UNREACHABLE | UNKNOWN

datatype UserPresence = ONLINE | UNAVAILABLE | OFFLINE | PRESENCE_UNKNOWN

text \<open>
  Modelled from the spec: \<^verbatim>\<open>USER_PRESENCE_REACHABLE_STATES\<close> is declared in the
  transport's utilities; the specification gives the set \<^verbatim>\<open>{online, unavailable}\<close>.
\<close>

definition USER_PRESENCE_REACHABLE_STATES :: "UserPresence list" where
  "USER_PRESENCE_REACHABLE_STATES = [ONLINE, UNAVAILABLE]"

text \<open>
  \<^verbatim>\<open>MatrixTransport\<close> extends the room state with: the two configuration values the retry
  queue reads; \<^verbatim>\<open>_raiden_service.address\<close> (\<^verbatim>\<open>None\<close> while \<^verbatim>\<open>_raiden_service\<close> is
  \<^verbatim>\<open>None\<close>); the client's own user id; the truth value of \<^verbatim>\<open>self.greenlet\<close>; whether
  \<^verbatim>\<open>_stop_event\<close> is set; \<^verbatim>\<open>_prioritize_broadcast_messages\<close>; what the
  \<^verbatim>\<open>UserAddressManager\<close> answers (known addresses, reachability, user ids of an
  address, presence of a user id); \<^verbatim>\<open>_queueids_to_queues\<close>, the application's queues,
  each given by the \<^verbatim>\<open>message_identifier\<close>s of its send events; and
  \<^verbatim>\<open>_address_to_retrier\<close>.
\<close>

record transport = room_state +
  retries_before_backoff :: nat
  retry_interval :: real
  raiden_address :: "address option"
  client_user_id :: user_id
  greenlet_started :: bool
  stop_event :: bool
  prioritize_broadcast_messages :: bool
  known_addresses :: "address set"
  address_reachability :: "address \<Rightarrow> AddressReachability"
  userids_for_address :: "address \<Rightarrow> user_id list"
  userid_presence :: "user_id \<Rightarrow> UserPresence"
  queueids_to_queues :: "queue_identifier \<rightharpoonup> nat list"
  address_to_retrier :: "address \<rightharpoonup> retry_queue"

text \<open>
  What the transport observes and causes outside its own state, in the order it happens:
  waiting for the broadcast queue to drain, a call of \<^verbatim>\<open>_send_raw\<close>, a text posted to a
  room, a call of \<^verbatim>\<open>_RetryQueue.enqueue\<close> on the retrier of an address, the
  application's \<^verbatim>\<open>on_messages\<close>, and the calls to the room service made while a room is
  created.
\<close>

datatype effect =
    BroadcastQueueJoin
  | SendRaw address string
  | RoomSendText room_id string
  | Enqueue address queue_identifier message
  | OnMessages "message list"
  | SearchUserDirectory address
  | CreateRoom "user_id list"
  | GetJoinedMembers room_id
  | StopEventWait real
  | LeaveRoom room_id

text \<open>
  The collaborators that are not part of the transport's source, as parameters:
  the message serializer, \<^verbatim>\<open>make_message_batches\<close>, the outcome of \<^verbatim>\<open>room.send_text\<close>
  (an exception or none), the signer behind \<^verbatim>\<open>raiden_service.sign\<close>, the property
  \<^verbatim>\<open>message.sender\<close>, \<^verbatim>\<open>validate_userid_signature\<close>,
  \<^verbatim>\<open>validate_and_parse_message\<close>, and what the room service answers: the user directory
  search for an address, the room that \<^verbatim>\<open>create_room\<close> returns for the invitees, the
  outcome of the n-th \<^verbatim>\<open>get_joined_members(force_resync=True)\<close> on a room, whether the
  n-th wait on the stop event reports the stop, and the outcome of \<^verbatim>\<open>room.leave\<close>.
\<close>

record env =
  serialize :: "message \<Rightarrow> string"
  make_message_batches :: "string list \<Rightarrow> string list"
  send_text :: "room_id \<Rightarrow> string \<Rightarrow> error option"
  signer :: "message \<Rightarrow> signature"
  sender :: "message \<Rightarrow> address option"
  validate_userid_signature :: "user_id \<Rightarrow> address option"
  validate_and_parse_message :: "string \<Rightarrow> address \<Rightarrow> message list"
  search_user_directory :: "address \<Rightarrow> user_id list"
  create_room :: "user_id list \<Rightarrow> room"
  get_joined_members :: "room_id \<Rightarrow> nat \<Rightarrow> error + user_id list"
  stop_event_wait :: "nat \<Rightarrow> bool"
  leave :: "room_id \<Rightarrow> error option"

subsection \<open>Enqueueing\<close>

text \<open>
  \<^verbatim>\<open>_RetryQueue.enqueue\<close>. The assertion compares the recipient with the receiver. A pair
  that is already buffered makes the method return inside the critical section: the buffer
  stays as it is and \<^verbatim>\<open>notify\<close> is not reached. Otherwise an entry with a fresh
  expiration generator is appended and the notify event is set.
\<close>

definition already_queued :: "queue_identifier \<Rightarrow> message \<Rightarrow> retry_queue \<Rightarrow> bool" where
  "already_queued qid m q =
     list_ex (\<lambda>data. qid = md_queue_identifier data \<and> m = md_message data) (message_queue q)"

definition new_expiration_generator :: "'a transport_scheme \<Rightarrow> expiration_generator" where
  "new_expiration_generator T =
     \<lparr>eg_retries = retries_before_backoff T, eg_timeout = retry_interval T,
      eg_maximum = retry_interval T * 10, eg_fetched = 0, eg_next = None\<rparr>"

definition notify :: "retry_queue \<Rightarrow> retry_queue" where
  "notify q = q\<lparr>notify_event := True\<rparr>"

definition enqueue ::
  "env \<Rightarrow> 'a transport_scheme \<Rightarrow> queue_identifier \<Rightarrow> message \<Rightarrow> retry_queue \<Rightarrow>
     error option \<times> retry_queue" where
  "enqueue E T qid m q =
     (if recipient qid \<noteq> receiver q then (Some AssertionError, q)
      else if already_queued qid m q then (None, q)
      else
        (None,
         notify (q\<lparr>message_queue := message_queue q @
           [\<lparr>md_queue_identifier = qid, md_message = m, md_text = serialize E m,
             md_expiration_generator = new_expiration_generator T\<rparr>]\<rparr>)))"

definition enqueue_unordered ::
  "env \<Rightarrow> 'a transport_scheme \<Rightarrow> message \<Rightarrow> retry_queue \<Rightarrow> error option \<times> retry_queue" where
  "enqueue_unordered E T m q =
     enqueue E T (QueueIdentifier (receiver q) CANONICAL_IDENTIFIER_UNORDERED_QUEUE) m q"


subsection \<open>Finding the room of a peer and sending\<close>

text \<open>
  \<^verbatim>\<open>_get_room_for_address\<close>. The assertion wants a non-empty address that the address
  manager knows. The candidates are the rooms of the filtered room ids that are not
  broadcast rooms (the filter guarantees that the client knows each id). Without
  \<^verbatim>\<open>require_online_peer\<close> the first candidate is returned; with it, the first candidate
  one of whose joined members is a user id of the address with a presence in
  \<^verbatim>\<open>USER_PRESENCE_REACHABLE_STATES\<close>.
\<close>

definition online_userids :: "'a transport_scheme \<Rightarrow> address \<Rightarrow> user_id list" where
  "online_userids T a =
     filter (\<lambda>u. userid_presence T u \<in> set USER_PRESENCE_REACHABLE_STATES)
       (userids_for_address T a)"

definition room_candidates :: "'a transport_scheme \<Rightarrow> address \<Rightarrow> room list" where
  "room_candidates T a =
     List.map_filter
       (\<lambda>rid. case client_rooms T rid of
                None \<Rightarrow> None
              | Some r \<Rightarrow> if is_broadcast_room (broadcast_rooms T) r then None else Some r)
       (get_room_ids_for_address T a)"

definition has_online_peers :: "'a transport_scheme \<Rightarrow> address \<Rightarrow> room \<Rightarrow> bool" where
  "has_online_peers T a r = list_ex (\<lambda>u. u \<in> set (joined_members r)) (online_userids T a)"

definition get_room_for_address ::
  "'a transport_scheme \<Rightarrow> address \<Rightarrow> bool \<Rightarrow> error + room option" where
  "get_room_for_address T a require_online_peer =
     (if a = [] \<or> a \<notin> known_addresses T then Inl AssertionError
      else
        case room_candidates T a of
          [] \<Rightarrow> Inr None
        | r # rs \<Rightarrow>
            if \<not> require_online_peer then Inr (Some r)
            else Inr (find (has_online_peers T a) (r # rs)))"

text \<open>
  \<^verbatim>\<open>_send_raw\<close>: posts the data to the room found for the receiver; without a room it
  only logs a warning. An exception of the room lookup or of \<^verbatim>\<open>room.send_text\<close>
  propagates.
\<close>

definition send_raw ::
  "env \<Rightarrow> 'a transport_scheme \<Rightarrow> address \<Rightarrow> string \<Rightarrow> error option \<times> effect list" where
  "send_raw E T a data =
     (case get_room_for_address T a True of
        Inl e \<Rightarrow> (Some e, [SendRaw a data])
      | Inr None \<Rightarrow> (None, [SendRaw a data])
      | Inr (Some r) \<Rightarrow>
          (send_text E (room_id r) data, [SendRaw a data, RoomSendText (room_id r) data]))"

text \<open>The loop over the batches: the first exception ends it.\<close>

fun send_batches ::
  "env \<Rightarrow> 'a transport_scheme \<Rightarrow> address \<Rightarrow> string list \<Rightarrow> error option \<times> effect list" where
  "send_batches E T a [] = (None, [])"
| "send_batches E T a (message_batch # batches) =
     (case send_raw E T a message_batch of
        (Some e, fx) \<Rightarrow> (Some e, fx)
      | (None, fx) \<Rightarrow>
          (case send_batches E T a batches of (e, fx') \<Rightarrow> (e, fx @ fx')))"

subsection \<open>Check and send\<close>

text \<open>
  The local function \<^verbatim>\<open>message_is_in_queue\<close>: the application still has the queue of the
  entry, and one of its send events carries the \<^verbatim>\<open>message_identifier\<close> of the entry's
  message, which has to be a \<^verbatim>\<open>RetrieableMessage\<close>.
\<close>

definition message_is_in_queue :: "'a transport_scheme \<Rightarrow> message_data \<Rightarrow> bool" where
  "message_is_in_queue T message_data =
     (case queueids_to_queues T (md_queue_identifier message_data) of
        None \<Rightarrow> False
      | Some send_events \<Rightarrow>
          list_ex
            (\<lambda>send_event.
               isinstance_RetrieableMessage (md_message message_data) \<and>
               Some send_event = message_identifier (md_message message_data))
            send_events)"

text \<open>
  The loop of \<^verbatim>\<open>_check_and_send\<close> over a copy of the buffer, returning the collected
  \<^verbatim>\<open>message_texts\<close> and the buffer it leaves. \<^verbatim>\<open>self._message_queue.remove(message_data)\<close>
  removes the first entry equal to the current one; entries are tuples that hold a generator
  object, which is equal to itself only, so the entry removed is the current one. An entry
  that stays keeps its place, with the state of its generator advanced where
  \<^verbatim>\<open>next()\<close> was called on it.
\<close>

fun check_and_send_loop ::
  "'a transport_scheme \<Rightarrow> real \<Rightarrow> message_data list \<Rightarrow> string list \<times> message_data list" where
  "check_and_send_loop T now [] = ([], [])"
| "check_and_send_loop T now (message_data # rest) =
     (case check_and_send_loop T now rest of
        (message_texts, kept) \<Rightarrow>
          if isinstance_Delivered_Ping_Pong (md_message message_data)
          then (md_text message_data # message_texts, kept)
          else if \<not> message_is_in_queue T message_data
          then (message_texts, kept)
          else
            (case expiration_generator_next now (md_expiration_generator message_data) of
               (ready, g) \<Rightarrow>
                 (if ready then md_text message_data # message_texts else message_texts,
                  message_data\<lparr>md_expiration_generator := g\<rparr> # kept)))"

text \<open>
  \<^verbatim>\<open>_check_and_send\<close>, called by the main loop while it holds the lock. It returns when
  the transport has not started or is stopping; it waits for the broadcast queue while
  broadcast messages have priority; it returns when the receiver is not reachable;
  otherwise it walks the buffer and hands the batches of the collected texts to
  \<^verbatim>\<open>_send_raw\<close>. The result is the exception that ended it (if any), the queue and the
  effects.
\<close>

definition check_and_send ::
  "env \<Rightarrow> 'a transport_scheme \<Rightarrow> real \<Rightarrow> retry_queue \<Rightarrow>
     error option \<times> retry_queue \<times> effect list" where
  "check_and_send E T now q =
     (if \<not> greenlet_started T then (None, q, [])
      else if stop_event T then (None, q, [])
      else
        let waited = (if prioritize_broadcast_messages T then [BroadcastQueueJoin] else []);
            status = address_reachability T (receiver q)
        in
          if status \<noteq> REACHABLE then (None, q, waited)
          else
            case check_and_send_loop T now (message_queue q) of
              (message_texts, kept) \<Rightarrow>
                if message_texts \<noteq> [] then
                  (case send_batches E T (receiver q) (make_message_batches E message_texts) of
                     (e, fx) \<Rightarrow> (e, q\<lparr>message_queue := kept\<rparr>, waited @ fx))
                else (None, q\<lparr>message_queue := kept\<rparr>, waited))"

subsection \<open>The main loop of the retry queue\<close>

text \<open>
  The body of the \<^verbatim>\<open>while\<close> loop of \<^verbatim>\<open>_run\<close> inside the critical section: the notify
  event is cleared; a non-empty buffer resets \<^verbatim>\<open>_idle_since\<close> and is checked and sent,
  an empty one increments \<^verbatim>\<open>_idle_since\<close>.
\<close>

definition run_iteration ::
  "env \<Rightarrow> 'a transport_scheme \<Rightarrow> real \<Rightarrow> retry_queue \<Rightarrow>
     error option \<times> retry_queue \<times> effect list" where
  "run_iteration E T now q =
     (let q = q\<lparr>notify_event := False\<rparr> in
      if message_queue q \<noteq> [] then check_and_send E T now (q\<lparr>idle_since := 0\<rparr>)
      else (None, q\<lparr>idle_since := idle_since q + 1\<rparr>, []))"

text \<open>
  Between two iterations the greenlet waits on the notify event; meanwhile other greenlets
  change the transport and call \<^verbatim>\<open>enqueue\<close>. One pass of the loop is therefore given
  the transport as it is when the pass runs, the clock reading, and the pairs enqueued since
  the previous pass (an enqueue whose assertion fails raises in its caller and leaves the
  queue as it is).
\<close>

record tick =
  tk_transport :: transport
  tk_now :: real
  tk_arrivals :: "(queue_identifier \<times> message) list"

definition arrive :: "env \<Rightarrow> tick \<Rightarrow> retry_queue \<Rightarrow> retry_queue" where
  "arrive E tk q =
     fold (\<lambda>(qid, m) q. snd (enqueue E (tk_transport tk) qid m q)) (tk_arrivals tk) q"

text \<open>How \<^verbatim>\<open>_run\<close> ends: the transport stopped, the queue was idle, or an exception.\<close>

datatype exit = Stopped | Idle | Crashed error

datatype step = Exit exit retry_queue "effect list" | Continue retry_queue "effect list"

text \<open>
  One pass: the loop condition \<^verbatim>\<open>not self.transport._stop_event.ready()\<close>, the body, and
  the test of \<^verbatim>\<open>is_idle\<close> behind it.
\<close>

definition run_step :: "env \<Rightarrow> tick \<Rightarrow> retry_queue \<Rightarrow> step" where
  "run_step E tk q =
     (let q = arrive E tk q in
      if stop_event (tk_transport tk) then Exit Stopped q []
      else
        case run_iteration E (tk_transport tk) (tk_now tk) q of
          (Some e, q', fx) \<Rightarrow> Exit (Crashed e) q' fx
        | (None, q', fx) \<Rightarrow> if is_idle q' then Exit Idle q' fx else Continue q' fx)"

text \<open>
  The loop over the passes it is given. \<^verbatim>\<open>None\<close> as the first component says that the loop
  is still running when the passes are used up.
\<close>

fun run_loop ::
  "env \<Rightarrow> tick list \<Rightarrow> retry_queue \<Rightarrow> exit option \<times> retry_queue \<times> effect list" where
  "run_loop E [] q = (None, q, [])"
| "run_loop E (tk # tks) q =
     (case run_step E tk q of
        Exit x q' fx \<Rightarrow> (Some x, q'\<lparr>greenlet_ready := True\<rparr>, fx)
      | Continue q' fx \<Rightarrow>
          (case run_loop E tks q' of (x, q'', fx') \<Rightarrow> (x, q'', fx @ fx')))"

text \<open>\<^verbatim>\<open>_run\<close>: the assertion on \<^verbatim>\<open>_raiden_service\<close>, then the loop.\<close>

definition run ::
  "env \<Rightarrow> 'a transport_scheme \<Rightarrow> tick list \<Rightarrow> retry_queue \<Rightarrow>
     exit option \<times> retry_queue \<times> effect list" where
  "run E T tks q =
     (if raiden_address T = None
      then (Some (Crashed AssertionError), q\<lparr>greenlet_ready := True\<rparr>, [])
      else run_loop E tks q)"


subsection \<open>Sending through the retry queues\<close>

text \<open>
  \<^verbatim>\<open>_get_retrier\<close>: the retrier stored for the receiver, or a new one (stored and started)
  when there is none or when the greenlet of the stored one has finished.
\<close>

definition get_retrier ::
  "'a transport_scheme \<Rightarrow> address \<Rightarrow> retry_queue \<times> 'a transport_scheme" where
  "get_retrier T a =
     (let fresh = (new_retry_queue a,
                   T\<lparr>address_to_retrier := (address_to_retrier T)(a \<mapsto> new_retry_queue a)\<rparr>)
      in case address_to_retrier T a of
           None \<Rightarrow> fresh
         | Some retrier \<Rightarrow> if greenlet_ready retrier then fresh else (retrier, T))"

text \<open>
  A retrier is an object that the dict refers to; a method that changes it changes what the
  dict holds under the key it was fetched with.
\<close>

definition put_retrier :: "address \<Rightarrow> retry_queue \<Rightarrow> 'a transport_scheme \<Rightarrow> 'a transport_scheme" where
  "put_retrier a retrier T = T\<lparr>address_to_retrier := (address_to_retrier T)(a \<mapsto> retrier)\<rparr>"

definition send_with_retry ::
  "env \<Rightarrow> queue_identifier \<Rightarrow> message \<Rightarrow> 'a transport_scheme \<Rightarrow>
     error option \<times> 'a transport_scheme \<times> effect list" where
  "send_with_retry E qid m T =
     (case get_retrier T (recipient qid) of
        (retrier, T) \<Rightarrow>
          (case enqueue E T qid m retrier of
             (e, retrier) \<Rightarrow>
               (e, put_retrier (recipient qid) retrier T, [Enqueue (recipient qid) qid m])))"

text \<open>
  \<^verbatim>\<open>is_binary_address\<close> of \<^verbatim>\<open>eth_utils\<close>: a \<^verbatim>\<open>bytes\<close> value of length 20. The
  recipient of a queue identifier is typed as \<^verbatim>\<open>bytes\<close> here.
\<close>

definition is_binary_address :: "address \<Rightarrow> bool" where
  "is_binary_address a \<longleftrightarrow> length a = 20"

text \<open>
  \<^verbatim>\<open>to_checksum_address\<close> is defined in \<^verbatim>\<open>raiden.utils.formatting\<close>, outside the
  transport's source; the transport calls it to format an address for messages and logs.
  Its result is text only; what the transport can observe is whether the call raises. The
  function walks the characters of \<^verbatim>\<open>address.hex()\<close> (two per byte, the high half
  first) and, for a character that is a letter, tests the bit \<^verbatim>\<open>2 ** (255 - 4 * i)\<close> of
  a hash with \<^verbatim>\<open>&\<close>. From position 64 on the exponent is negative, the power is a
  float, and \<^verbatim>\<open>&\<close> of an integer and a float raises \<^verbatim>\<open>TypeError\<close>. Digits are copied
  without the test.
\<close>

definition hex_is_letter :: "address \<Rightarrow> bool list" where
  "hex_is_letter a = concat (map (\<lambda>b. [10 \<le> unat b div 16, 10 \<le> unat b mod 16]) a)"

definition to_checksum_address_error :: "address \<Rightarrow> error option" where
  "to_checksum_address_error a =
     (if list_ex (\<lambda>letter. letter) (drop 64 (hex_is_letter a)) then Some TypeError else None)"

text \<open>
  \<^verbatim>\<open>send_async\<close>: a recipient that is not a binary address raises \<^verbatim>\<open>ValueError\<close>, whose
  message is built with \<^verbatim>\<open>to_checksum_address\<close> first, so that an exception of the
  formatting takes the place of the \<^verbatim>\<open>ValueError\<close>; a \<^verbatim>\<open>Delivered\<close>, \<^verbatim>\<open>Ping\<close> or
  \<^verbatim>\<open>Pong\<close> raises \<^verbatim>\<open>ValueError\<close>; then the debug log formats the address again, and
  \<^verbatim>\<open>_send_with_retry\<close> follows. (Serializing the message for the log is taken not to
  raise.)
\<close>

definition send_async ::
  "env \<Rightarrow> queue_identifier \<Rightarrow> message \<Rightarrow> 'a transport_scheme \<Rightarrow>
     error option \<times> 'a transport_scheme \<times> effect list" where
  "send_async E qid m T =
     (let receiver_address = recipient qid in
      if \<not> is_binary_address receiver_address then
        (case to_checksum_address_error receiver_address of
           Some e \<Rightarrow> (Some e, T, [])
         | None \<Rightarrow> (Some ValueError, T, []))
      else if isinstance_Delivered_Ping_Pong m then (Some ValueError, T, [])
      else
        (case to_checksum_address_error receiver_address of
           Some e \<Rightarrow> (Some e, T, [])
         | None \<Rightarrow> send_with_retry E qid m T))"

subsection \<open>The inbound pipeline\<close>

text \<open>
  A Matrix event as \<^verbatim>\<open>_handle_text\<close> reads it: \<^verbatim>\<open>message["type"]\<close>,
  \<^verbatim>\<open>message["content"]["msgtype"]\<close>, \<^verbatim>\<open>message["sender"]\<close> and
  \<^verbatim>\<open>message["content"]["body"]\<close>. The keys are taken to be present.
\<close>

record matrix_message =
  mm_type :: string
  mm_msgtype :: string
  mm_sender :: user_id
  mm_body :: string

text \<open>
  \<^verbatim>\<open>_handle_text\<close>: the checks in the order of the source. A peer address is falsy when
  it is \<^verbatim>\<open>None\<close> or empty. A message in a broadcast room raises \<^verbatim>\<open>RuntimeError\<close>.
\<close>

definition handle_text ::
  "env \<Rightarrow> 'a transport_scheme \<Rightarrow> room \<Rightarrow> matrix_message \<Rightarrow> error + message list" where
  "handle_text E T r message =
     (let is_valid_type =
            (mm_type message = ''m.room.message'' \<and> mm_msgtype message = ''m.text'');
          sender_id = mm_sender message
      in
        if \<not> is_valid_type then Inr []
        else if sender_id = client_user_id T then Inr []
        else
          case validate_userid_signature E sender_id of
            None \<Rightarrow> Inr []
          | Some peer_address \<Rightarrow>
              if peer_address = [] then Inr []
              else if is_broadcast_room (broadcast_rooms T) r then Inl RuntimeError
              else if peer_address \<notin> known_addresses T then Inr []
              else if room_id r \<notin> set (get_room_ids_for_address T peer_address) then Inr []
              else Inr (validate_and_parse_message E (mm_body message) peer_address))"

text \<open>The inner loop of \<^verbatim>\<open>_handle_sync_messages\<close> over the texts of one room.\<close>

fun handle_texts ::
  "env \<Rightarrow> 'a transport_scheme \<Rightarrow> room \<Rightarrow> matrix_message list \<Rightarrow> error + message list" where
  "handle_texts E T r [] = Inr []"
| "handle_texts E T r (t # ts) =
     (case handle_text E T r t of
        Inl e \<Rightarrow> Inl e
      | Inr ms \<Rightarrow>
          (case handle_texts E T r ts of Inl e \<Rightarrow> Inl e | Inr ms' \<Rightarrow> Inr (ms @ ms')))"

text \<open>The outer loop: the rooms that are not broadcast rooms, in order.\<close>

fun collect_messages ::
  "env \<Rightarrow> 'a transport_scheme \<Rightarrow> (room \<times> matrix_message list) list \<Rightarrow> error + message list" where
  "collect_messages E T [] = Inr []"
| "collect_messages E T ((r, room_messages) # rest) =
     (if \<not> is_broadcast_room (broadcast_rooms T) r then
        (case handle_texts E T r room_messages of
           Inl e \<Rightarrow> Inl e
         | Inr ms \<Rightarrow>
             (case collect_messages E T rest of Inl e \<Rightarrow> Inl e | Inr ms' \<Rightarrow> Inr (ms @ ms')))
      else collect_messages E T rest)"

text \<open>
  Modelled from the spec: \<^verbatim>\<open>EMPTY_SIGNATURE\<close> is declared in \<^verbatim>\<open>raiden.constants\<close>
  and \<^verbatim>\<open>sign\<close> belongs to the Raiden service; the specification says that the
  \<^verbatim>\<open>Delivered\<close> message is synthesized and signed. Signing replaces the signature of the
  message by what the signer computes from the message.
\<close>

definition EMPTY_SIGNATURE :: signature where
  "EMPTY_SIGNATURE = replicate 65 0"

fun sign :: "env \<Rightarrow> message \<Rightarrow> message" where
  "sign E (Delivered i s) = Delivered i (signer E (Delivered i s))"
| "sign E (Ping n s) = Ping n (signer E (Ping n s))"
| "sign E (Pong n s) = Pong n (signer E (Pong n s))"
| "sign E (Processed i s) = Processed i (signer E (Processed i s))"
| "sign E (SignedRetrieableMessage c i s) =
     SignedRetrieableMessage c i (signer E (SignedRetrieableMessage c i s))"
| "sign E m = m"

text \<open>
  The condition of the second loop:
  \<^verbatim>\<open>isinstance(message, (Processed, SignedRetrieableMessage)) and message.sender\<close>.
\<close>

definition needs_delivered :: "env \<Rightarrow> message \<Rightarrow> bool" where
  "needs_delivered E m \<longleftrightarrow>
     isinstance_Processed_SignedRetrieableMessage m \<and>
     (case sender E m of None \<Rightarrow> False | Some a \<Rightarrow> a \<noteq> [])"

text \<open>
  The body of the second loop for one message that satisfies the condition: the
  \<^verbatim>\<open>Delivered\<close> message is built and signed, the retrier of the sender is fetched and the
  message is enqueued there as unordered. (The two cases without a sender or without a
  \<^verbatim>\<open>message_identifier\<close> would be an \<^verbatim>\<open>AttributeError\<close>; the condition excludes them.)
\<close>

definition send_delivered ::
  "env \<Rightarrow> message \<Rightarrow> 'a transport_scheme \<Rightarrow>
     error option \<times> 'a transport_scheme \<times> effect list" where
  "send_delivered E m T =
     (case (sender E m, message_identifier m) of
        (Some a, Some i) \<Rightarrow>
          (let delivered_message = sign E (Delivered i EMPTY_SIGNATURE) in
           case get_retrier T a of
             (retrier, T) \<Rightarrow>
               (case enqueue_unordered E T delivered_message retrier of
                  (e, retrier') \<Rightarrow>
                    (e, put_retrier a retrier' T,
                     [Enqueue a
                        (QueueIdentifier (receiver retrier) CANONICAL_IDENTIFIER_UNORDERED_QUEUE)
                        delivered_message])))
      | _ \<Rightarrow> (Some AttributeError, T, []))"

fun acknowledge ::
  "env \<Rightarrow> message list \<Rightarrow> 'a transport_scheme \<Rightarrow>
     error option \<times> 'a transport_scheme \<times> effect list" where
  "acknowledge E [] T = (None, T, [])"
| "acknowledge E (m # ms) T =
     (if needs_delivered E m then
        (case send_delivered E m T of
           (Some e, T', fx) \<Rightarrow> (Some e, T', fx)
         | (None, T', fx) \<Rightarrow>
             (case acknowledge E ms T' of (e, T'', fx') \<Rightarrow> (e, T'', fx @ fx')))
      else acknowledge E ms T)"

text \<open>
  \<^verbatim>\<open>_handle_sync_messages\<close>: nothing happens when the transport is stopping; the
  assertion on \<^verbatim>\<open>_raiden_service\<close>; the messages of all rooms are collected; a
  \<^verbatim>\<open>Delivered\<close> is enqueued for each message that needs one; then the application's
  \<^verbatim>\<open>on_messages\<close> receives all messages. The boolean is the return value.
\<close>

definition handle_sync_messages ::
  "env \<Rightarrow> (room \<times> matrix_message list) list \<Rightarrow> 'a transport_scheme \<Rightarrow>
     error option \<times> bool \<times> 'a transport_scheme \<times> effect list" where
  "handle_sync_messages E sync_messages T =
     (if stop_event T then (None, False, T, [])
      else if raiden_address T = None then (Some AssertionError, False, T, [])
      else
        case collect_messages E T sync_messages of
          Inl e \<Rightarrow> (Some e, False, T, [])
        | Inr all_messages \<Rightarrow>
            (case acknowledge E all_messages T of
               (Some e, T', fx) \<Rightarrow> (Some e, False, T', fx)
             | (None, T', fx) \<Rightarrow>
                 (None, all_messages \<noteq> [], T', fx @ [OnMessages all_messages])))"


subsection \<open>Creating the room of a peer\<close>

text \<open>
  Modelled from the spec: \<^verbatim>\<open>my_place_or_yours\<close> is defined in the transport's utilities.
  The specification: the peer with the lexicographically smaller address is the creator.
\<close>

definition my_place_or_yours :: "address \<Rightarrow> address \<Rightarrow> address" where
  "my_place_or_yours our_address partner_address =
     (if our_address \<le> partner_address then our_address else partner_address)"

text \<open>
  Modelled from the spec: \<^verbatim>\<open>JOIN_RETRIES\<close> is declared in the transport's utilities;
  the specification and the comment on \<^verbatim>\<open>ROOM_JOIN_RETRY_INTERVAL\<close> give 10.
\<close>

definition JOIN_RETRIES :: nat where
  "JOIN_RETRIES = 10"

definition ROOM_JOIN_RETRY_INTERVAL :: real where
  "ROOM_JOIN_RETRY_INTERVAL = 1 / 10"

definition ROOM_JOIN_RETRY_INTERVAL_MULTIPLIER :: real where
  "ROOM_JOIN_RETRY_INTERVAL_MULTIPLIER = 155 / 100"

text \<open>
  The loop that polls the members of the new room. \<^verbatim>\<open>members\<close> is unbound until a call
  of \<^verbatim>\<open>get_joined_members\<close> has returned: a \<^verbatim>\<open>MatrixRequestError\<close> with a code below 500
  is raised again, one with a higher code is swallowed, and the test that follows reads
  \<^verbatim>\<open>members\<close>, bound or not. The loop ends when a partner user has joined, when the wait
  on the stop event reports the stop, or after \<^verbatim>\<open>JOIN_RETRIES\<close> rounds. The arguments:
  the rounds left, the number of the round, the local \<^verbatim>\<open>retry_interval\<close> and
  \<^verbatim>\<open>members\<close>.
\<close>

datatype poll = PollRaised error | PollStopped | PollDone "user_id list option"

fun poll_members ::
  "env \<Rightarrow> room_id \<Rightarrow> user_id list \<Rightarrow> nat \<Rightarrow> nat \<Rightarrow> real \<Rightarrow> user_id list option \<Rightarrow>
     poll \<times> effect list" where
  "poll_members E rid partner_user_ids 0 k interval members = (PollDone members, [])"
| "poll_members E rid partner_user_ids (Suc n) k interval members =
     (case (case get_joined_members E rid k of
              Inr ms \<Rightarrow> Inr (Some ms)
            | Inl (MatrixRequestError code) \<Rightarrow>
                if code < 500 then Inl (MatrixRequestError code) else Inr members
            | Inl e \<Rightarrow> Inl e) of
        Inl e \<Rightarrow> (PollRaised e, [GetJoinedMembers rid])
      | Inr None \<Rightarrow> (PollRaised UnboundLocalError, [GetJoinedMembers rid])
      | Inr (Some ms) \<Rightarrow>
          if list_ex (\<lambda>member. member \<in> set partner_user_ids) ms
          then (PollDone (Some ms), [GetJoinedMembers rid])
          else if stop_event_wait E k
          then (PollStopped, [GetJoinedMembers rid, StopEventWait interval])
          else
            (case poll_members E rid partner_user_ids n (Suc k)
                    (interval * ROOM_JOIN_RETRY_INTERVAL_MULTIPLIER) (Some ms) of
               (p, fx) \<Rightarrow> (p, GetJoinedMembers rid # StopEventWait interval # fx)))"

text \<open>
  \<^verbatim>\<open>_leave_unexpected_rooms\<close> for one room: a \<^verbatim>\<open>MatrixRequestError\<close> of \<^verbatim>\<open>room.leave\<close>
  becomes a \<^verbatim>\<open>TransportError\<close>.
\<close>

definition leave_unexpected_room :: "env \<Rightarrow> room \<Rightarrow> error option \<times> effect list" where
  "leave_unexpected_room E r =
     (case leave E (room_id r) of
        None \<Rightarrow> (None, [LeaveRoom (room_id r)])
      | Some (MatrixRequestError code) \<Rightarrow> (Some TransportError, [LeaveRoom (room_id r)])
      | Some e \<Rightarrow> (Some e, [LeaveRoom (room_id r)]))"

text \<open>
  Modelled from the spec: \<^verbatim>\<open>add_userids_for_address\<close> belongs to the
  \<^verbatim>\<open>UserAddressManager\<close>; the specification says that the peer's user ids are registered
  for the address.
\<close>

definition add_userids_for_address ::
  "address \<Rightarrow> user_id list \<Rightarrow> 'a transport_scheme \<Rightarrow> 'a transport_scheme" where
  "add_userids_for_address a user_ids T =
     T\<lparr>userids_for_address :=
         (userids_for_address T)
           (a := userids_for_address T a @
                 filter (\<lambda>u. u \<notin> set (userids_for_address T a)) (remdups user_ids))\<rparr>"

text \<open>
  The part of \<^verbatim>\<open>_maybe_create_room_for_address\<close> under the room creation lock: the user
  directory is searched; the users whose signature validates to the address are the
  partner users; without any the method returns; otherwise the room is created (the client
  records it among its rooms), the members are polled, a room with a member that is neither
  a partner user nor this client is left, and else the user ids are registered and the
  room id is put in front of the list of the address. The result: the exception (if any),
  the room returned, the transport and the effects.
\<close>

definition create_room_for_address ::
  "env \<Rightarrow> 'a transport_scheme \<Rightarrow> address \<Rightarrow>
     error option \<times> room option \<times> 'a transport_scheme \<times> effect list" where
  "create_room_for_address E T a =
     (let candidates = search_user_directory E a;
          partner_users = filter (\<lambda>user. validate_userid_signature E user = Some a) candidates;
          partner_user_ids = partner_users
      in
        if partner_users = [] then (None, None, T, [SearchUserDirectory a])
        else
          let r = create_room E partner_user_ids;
              T = T\<lparr>client_rooms := (client_rooms T)(room_id r \<mapsto> r)\<rparr>;
              fx = [SearchUserDirectory a, CreateRoom partner_user_ids]
          in
            case poll_members E (room_id r) partner_user_ids JOIN_RETRIES 0
                   ROOM_JOIN_RETRY_INTERVAL None of
              (PollRaised e, fx') \<Rightarrow> (Some e, None, T, fx @ fx')
            | (PollStopped, fx') \<Rightarrow> (None, None, T, fx @ fx')
            | (PollDone None, fx') \<Rightarrow> (Some UnboundLocalError, None, T, fx @ fx')
            | (PollDone (Some members), fx') \<Rightarrow>
                let valid_user_ids = partner_user_ids @ [client_user_id T];
                    has_unexpected_user_ids =
                      list_ex (\<lambda>member. member \<notin> set valid_user_ids) members
                in
                  if has_unexpected_user_ids then
                    (case leave_unexpected_room E r of
                       (e, fx'') \<Rightarrow> (e, None, T, fx @ fx' @ fx''))
                  else
                    (case set_room_id_for_address a (room_id r)
                            (add_userids_for_address a partner_user_ids T) of
                       (Some e, T') \<Rightarrow> (Some e, None, T', fx @ fx')
                     | (None, T') \<Rightarrow> (None, Some r, T', fx @ fx')))"

text \<open>
  \<^verbatim>\<open>_maybe_create_room_for_address\<close>: nothing when the transport is stopping or a room for
  the address is there; the assertion on \<^verbatim>\<open>_raiden_service\<close>; the election of the room
  creator; and only when this node is the creator, the creation above.
\<close>

definition maybe_create_room_for_address ::
  "env \<Rightarrow> 'a transport_scheme \<Rightarrow> address \<Rightarrow>
     error option \<times> room option \<times> 'a transport_scheme \<times> effect list" where
  "maybe_create_room_for_address E T a =
     (if stop_event T then (None, None, T, [])
      else
        case get_room_for_address T a False of
          Inl e \<Rightarrow> (Some e, None, T, [])
        | Inr (Some r) \<Rightarrow> (None, None, T, [])
        | Inr None \<Rightarrow>
            (case raiden_address T of
               None \<Rightarrow> (Some AssertionError, None, T, [])
             | Some our_address \<Rightarrow>
                 let room_creator_address = my_place_or_yours our_address a in
                 if our_address \<noteq> room_creator_address then (None, None, T, [])
                 else create_room_for_address E T a))"


subsection \<open>Notions used to state the results\<close>

text \<open>
  The key that \<^verbatim>\<open>enqueue\<close> compares; retriers that are stored under the address they
  send to and buffer no key twice; a live retrier of an address that buffers a key; the
  \<^verbatim>\<open>enqueue\<close> calls that \<^verbatim>\<open>_handle_sync_messages\<close> owes to a message; effects that
  contain a call of \<^verbatim>\<open>create_room\<close>; a pass of the main loop without a stop and without
  arrivals.
\<close>

definition entry_key :: "message_data \<Rightarrow> queue_identifier \<times> message" where
  "entry_key d = (md_queue_identifier d, md_message d)"

definition retriers_ok :: "'a transport_scheme \<Rightarrow> bool" where
  "retriers_ok T \<longleftrightarrow>
     (\<forall>a r. address_to_retrier T a = Some r \<longrightarrow>
        receiver r = a \<and> distinct (map entry_key (message_queue r)))"

definition holds_entry ::
  "'a transport_scheme \<Rightarrow> address \<Rightarrow> queue_identifier \<times> message \<Rightarrow> bool" where
  "holds_entry T a k \<longleftrightarrow>
     (\<exists>r. address_to_retrier T a = Some r \<and> \<not> greenlet_ready r \<and>
        k \<in> entry_key ` set (message_queue r))"

definition delivered_events :: "env \<Rightarrow> message \<Rightarrow> effect list" where
  "delivered_events E m =
     (if needs_delivered E m then
        (case (sender E m, message_identifier m) of
           (Some a, Some i) \<Rightarrow>
             [Enqueue a (QueueIdentifier a CANONICAL_IDENTIFIER_UNORDERED_QUEUE)
                (Delivered i (signer E (Delivered i EMPTY_SIGNATURE)))]
         | _ \<Rightarrow> [])
      else [])"

definition creates_room :: "effect list \<Rightarrow> bool" where
  "creates_room fx \<longleftrightarrow> (\<exists>invitees. CreateRoom invitees \<in> set fx)"

definition quiet :: "tick \<Rightarrow> bool" where
  "quiet tk \<longleftrightarrow> \<not> stop_event (tk_transport tk) \<and> tk_arrivals tk = []"

section \<open>Concrete states\<close>

text \<open>A concrete room map: two private rooms the client knows, one peer.\<close>

definition private_room :: "room_id \<Rightarrow> room" where
  "private_room rid =
     \<lparr>room_id = rid, aliases = [], canonical_alias = None, invite_only = True,
      joined_members = []\<rparr>"

definition example_rooms0 :: room_state where
  "example_rooms0 =
     \<lparr>broadcast_rooms = [],
      client_rooms = [''!r1'' \<mapsto> private_room ''!r1'', ''!r2'' \<mapsto> private_room ''!r2''],
      address_to_room_ids = (\<lambda>_. [])\<rparr>"

definition example_rooms1 :: room_state where
  "example_rooms1 = example_rooms0\<lparr>address_to_room_ids := (\<lambda>_. [])([1] := [''!r1''])\<rparr>"

definition example_rooms2 :: room_state where
  "example_rooms2 =
     example_rooms0\<lparr>address_to_room_ids := (\<lambda>_. [])([1] := [''!r2'', ''!r1''])\<rparr>"

text \<open>
  A room that is not invite-only beside two private rooms. The room ids are stored for the
  peer in the order \<^verbatim>\<open>!r2\<close>, \<^verbatim>\<open>!pub\<close> (as \<^verbatim>\<open>_handle_invite\<close> stores the id of a
  room whatever its join rule), then \<^verbatim>\<open>!r1\<close>.
\<close>

definition public_room :: "room_id \<Rightarrow> room" where
  "public_room rid = (private_room rid)\<lparr>invite_only := False\<rparr>"

definition mixed_rooms0 :: room_state where
  "mixed_rooms0 =
     \<lparr>broadcast_rooms = [],
      client_rooms =
        [''!pub'' \<mapsto> public_room ''!pub'', ''!r1'' \<mapsto> private_room ''!r1'',
         ''!r2'' \<mapsto> private_room ''!r2''],
      address_to_room_ids = (\<lambda>_. [])\<rparr>"

definition mixed_rooms1 :: room_state where
  "mixed_rooms1 = mixed_rooms0\<lparr>address_to_room_ids := (\<lambda>_. [])([1] := [''!r2''])\<rparr>"

definition mixed_rooms2 :: room_state where
  "mixed_rooms2 = mixed_rooms0\<lparr>address_to_room_ids := (\<lambda>_. [])([1] := [''!pub'', ''!r2''])\<rparr>"

definition mixed_rooms3 :: room_state where
  "mixed_rooms3 = mixed_rooms0\<lparr>address_to_room_ids := (\<lambda>_. [])([1] := [''!r1'', ''!r2''])\<rparr>"

text \<open>
  A concrete transport: this node, one peer with one user that is online, one private room
  shared with the peer, and one pending send event (message identifier 7) in the
  application's queue of a channel with the peer.
\<close>

definition example_peer :: address where
  "example_peer = replicate 20 1"

definition example_node :: address where
  "example_node = replicate 20 0"

fun example_serialize :: "message \<Rightarrow> string" where
  "example_serialize (Delivered _ _) = ''{Delivered}''"
| "example_serialize (Ping _ _) = ''{Ping}''"
| "example_serialize (Pong _ _) = ''{Pong}''"
| "example_serialize (Processed _ _) = ''{Processed}''"
| "example_serialize (SignedRetrieableMessage c _ _) = c"
| "example_serialize (RetrieableMessage c _) = c"
| "example_serialize (Message c) = c"

fun join_lines :: "string list \<Rightarrow> string" where
  "join_lines [] = []"
| "join_lines [t] = t"
| "join_lines (t # ts) = t @ CHR 0x0A # join_lines ts"

definition example_env :: env where
  "example_env =
     \<lparr>serialize = example_serialize,
      make_message_batches = (\<lambda>texts. [join_lines texts]),
      send_text = (\<lambda>_ _. None),
      signer = (\<lambda>_. [7]),
      sender = (\<lambda>_. Some example_peer),
      validate_userid_signature =
        (\<lambda>u. if u = ''@peer:server'' then Some example_peer else None),
      validate_and_parse_message =
        (\<lambda>body a. if body = ''{Processed}'' then [Processed 7 [9]] else []),
      search_user_directory = (\<lambda>a. [''@peer:server'', ''@mallory:server'']),
      create_room =
        (\<lambda>invitees. (private_room ''!new'')\<lparr>joined_members := [''@me:server'']\<rparr>),
      get_joined_members =
        (\<lambda>rid n. if n = 0 then Inr [''@me:server''] else Inr [''@me:server'', ''@peer:server'']),
      stop_event_wait = (\<lambda>_. False),
      leave = (\<lambda>_. None)\<rparr>"

definition failing_env :: env where
  "failing_env = example_env\<lparr>send_text := (\<lambda>_ _. Some (MatrixRequestError 500))\<rparr>"

definition channel_queue :: queue_identifier where
  "channel_queue = QueueIdentifier example_peer (CanonicalIdentifier 1 [2] 5)"

definition unordered_queue :: queue_identifier where
  "unordered_queue = QueueIdentifier example_peer CANONICAL_IDENTIFIER_UNORDERED_QUEUE"

definition example_transport :: transport where
  "example_transport =
     \<lparr>broadcast_rooms = [''discovery''],
      client_rooms =
        [''!r1'' \<mapsto> (private_room ''!r1'')\<lparr>joined_members := [''@me:server'', ''@peer:server'']\<rparr>],
      address_to_room_ids = (\<lambda>_. [])(example_peer := [''!r1'']),
      retries_before_backoff = 2,
      retry_interval = 1,
      raiden_address = Some example_node,
      client_user_id = ''@me:server'',
      greenlet_started = True,
      stop_event = False,
      prioritize_broadcast_messages = False,
      known_addresses = {example_peer},
      address_reachability = (\<lambda>_. UNKNOWN)(example_peer := REACHABLE),
      userids_for_address = (\<lambda>_. [])(example_peer := [''@peer:server'']),
      userid_presence = (\<lambda>_. PRESENCE_UNKNOWN)(''@peer:server'' := ONLINE),
      queueids_to_queues = [channel_queue \<mapsto> [7]],
      address_to_retrier = Map.empty\<rparr>"

definition transfer_message :: message where
  "transfer_message = SignedRetrieableMessage ''{LockedTransfer}'' 7 [9]"

definition transfer_entry :: message_data where
  "transfer_entry =
     \<lparr>md_queue_identifier = channel_queue, md_message = transfer_message,
      md_text = ''{LockedTransfer}'',
      md_expiration_generator = new_expiration_generator example_transport\<rparr>"

definition delivered_entry :: message_data where
  "delivered_entry =
     \<lparr>md_queue_identifier = unordered_queue, md_message = Delivered 3 [7],
      md_text = ''{Delivered}'',
      md_expiration_generator = new_expiration_generator example_transport\<rparr>"

definition example_queue :: "message_data list \<Rightarrow> retry_queue" where
  "example_queue entries = (new_retry_queue example_peer)\<lparr>message_queue := entries\<rparr>"


text \<open>The peer is unreachable and broadcast messages have priority.\<close>

definition unreachable_transport :: transport where
  "unreachable_transport =
     example_transport\<lparr>address_reachability := (\<lambda>_. UNREACHABLE),
       prioritize_broadcast_messages := True\<rparr>"

text \<open>Two passes: one that finds the transport stopped, one that finds nothing new.\<close>

definition stopped_tick :: tick where
  "stopped_tick =
     \<lparr>tk_transport = example_transport\<lparr>stop_event := True\<rparr>, tk_now = 0, tk_arrivals = []\<rparr>"

definition quiet_tick :: tick where
  "quiet_tick = \<lparr>tk_transport = example_transport, tk_now = 0, tk_arrivals = []\<rparr>"

text \<open>A queue identifier whose recipient has 33 bytes, all \<^verbatim>\<open>0xff\<close>.\<close>

definition long_recipient :: queue_identifier where
  "long_recipient = QueueIdentifier (replicate 33 255) CANONICAL_IDENTIFIER_UNORDERED_QUEUE"

text \<open>One text message of the peer in the private room.\<close>

definition example_sync :: "(room \<times> matrix_message list) list" where
  "example_sync =
     [((private_room ''!r1'')\<lparr>joined_members := [''@me:server'', ''@peer:server'']\<rparr>,
       [\<lparr>mm_type = ''m.room.message'', mm_msgtype = ''m.text'', mm_sender = ''@peer:server'',
         mm_body = ''{Processed}''\<rparr>])]"

text \<open>The same node without any room, and the peer's own node.\<close>

definition lonely_transport :: transport where
  "lonely_transport =
     example_transport\<lparr>client_rooms := Map.empty, address_to_room_ids := (\<lambda>_. [])\<rparr>"

definition peer_transport :: transport where
  "peer_transport =
     lonely_transport\<lparr>raiden_address := Some example_peer, known_addresses := {example_node}\<rparr>"

section \<open>Broadcast room detection: results\<close>

lemma is_broadcast_room_iff:
  "is_broadcast_room bsuffixes r \<longleftrightarrow>
     (\<exists>suffix \<in> set bsuffixes. \<exists>room_alias \<in> set (aliases r). sublist suffix room_alias)"
  by (simp add: is_broadcast_room_def list_ex_iff)

lemma is_broadcast_room_spec_iff:
  "is_broadcast_room_spec bsuffixes r \<longleftrightarrow>
     is_broadcast_room bsuffixes r \<or>
     (\<exists>suffix \<in> set bsuffixes. \<exists>c. canonical_alias r = Some c \<and> sublist suffix c)"
  by (auto simp: is_broadcast_room_iff is_broadcast_room_spec_def all_room_aliases_def
      list_ex_iff split: option.splits)

text \<open>
  C9. The specification says that a room is a broadcast room iff one of its aliases or its
  canonical alias contains a configured suffix. The code drops the canonical alias: for a
  room whose only alias is a canonical alias \<^verbatim>\<open>#raiden_1_discovery:server\<close> and the suffix
  \<^verbatim>\<open>discovery\<close>, \<^verbatim>\<open>_is_broadcast_room\<close> answers False where the specification
  answers True.
\<close>

theorem is_broadcast_room_ignores_canonical_alias:
  "is_broadcast_room [''discovery''] room_with_canonical_alias_only = False \<and>
   is_broadcast_room_spec [''discovery''] room_with_canonical_alias_only = True"
proof -
  have "sublist ''discovery'' ''#raiden_1_discovery:server''"
    by code_simp
  then show ?thesis
    by (simp add: is_broadcast_room_def is_broadcast_room_spec_def all_room_aliases_def
        room_with_canonical_alias_only_def)
qed

section \<open>Room ids of an address: results\<close>

lemma distinct_set_room_id_for_address:
  assumes "set_room_id_for_address a rid T = (None, T')"
    and "distinct (address_to_room_ids T b)"
  shows "distinct (address_to_room_ids T' b)"
  using assms
  by (auto simp: set_room_id_for_address_def get_room_ids_for_address_def Let_def
      split: if_splits)

lemma reachable_rooms_distinct:
  "reachable_rooms T \<Longrightarrow> distinct (address_to_room_ids T b)"
proof (induction arbitrary: b rule: reachable_rooms.induct)
  case (init T)
  then show ?case by simp
next
  case (other T T')
  then show ?case by simp
next
  case (set_room T a rid T')
  then show ?case
    using distinct_set_room_id_for_address by blast
qed

text \<open>
  C10, as amended. When \<^verbatim>\<open>_set_room_id_for_address(address, room_id)\<close> returns, the list
  stored for the address starts with \<^verbatim>\<open>room_id\<close> and holds it nowhere else; its tail is
  the list that \<^verbatim>\<open>_get_room_ids_for_address\<close> returned before the call without
  \<^verbatim>\<open>room_id\<close>, in the same order: of the other room ids stored before, exactly those of
  rooms that the client knows and that are invite-only are kept, in their relative order,
  and the others are dropped. The lists of the other addresses are untouched.
  Consequently, in every state reached from the empty map, the list of every address is
  free of duplicates, also after the call.
\<close>

theorem set_room_id_for_address_front:
  assumes "set_room_id_for_address a rid T = (None, T')"
  shows "hd (address_to_room_ids T' a) = rid
       \<and> address_to_room_ids T' a \<noteq> []
       \<and> rid \<notin> set (tl (address_to_room_ids T' a))
       \<and> count_list (address_to_room_ids T' a) rid = 1
       \<and> tl (address_to_room_ids T' a) =
           filter (\<lambda>r. r \<noteq> rid) (get_room_ids_for_address T a)
       \<and> subseq (tl (address_to_room_ids T' a)) (address_to_room_ids T a)
       \<and> set (address_to_room_ids T' a) =
           insert rid {r \<in> set (address_to_room_ids T a). room_is_private T r}
       \<and> (\<forall>b. b \<noteq> a \<longrightarrow> address_to_room_ids T' b = address_to_room_ids T b)
       \<and> (reachable_rooms T \<longrightarrow> (\<forall>b. distinct (address_to_room_ids T' b)))"
proof -
  from assms have ok: "rid = [] \<or> rid \<in> dom (client_rooms T)"
    by (auto simp: set_room_id_for_address_def split: if_splits)
  from assms ok have T': "T' = T\<lparr>address_to_room_ids := (address_to_room_ids T)
      (a := rid # filter (\<lambda>r. r \<noteq> rid) (get_room_ids_for_address T a))\<rparr>"
    by (auto simp: set_room_id_for_address_def Let_def split: if_splits)
  have stored: "address_to_room_ids T' a =
      rid # filter (\<lambda>r. r \<noteq> rid) (get_room_ids_for_address T a)"
    by (simp add: T')
  have count: "count_list (filter (\<lambda>r. r \<noteq> rid) xs) rid = 0" for xs :: "room_id list"
    by (induction xs) auto
  have sub: "subseq (filter (\<lambda>r. r \<noteq> rid) (get_room_ids_for_address T a))
      (address_to_room_ids T a)"
    unfolding get_room_ids_for_address_def
    by (metis filter_filter subseq_filter_left)
  have others: "\<forall>b. b \<noteq> a \<longrightarrow> address_to_room_ids T' b = address_to_room_ids T b"
    by (simp add: T')
  have inv: "reachable_rooms T \<longrightarrow> (\<forall>b. distinct (address_to_room_ids T' b))"
    using reachable_rooms.set_room [OF _ assms] reachable_rooms_distinct by blast
  have kept: "set (address_to_room_ids T' a) =
      insert rid {r \<in> set (address_to_room_ids T a). room_is_private T r}"
    by (auto simp: stored get_room_ids_for_address_def)
  have parts: "hd (address_to_room_ids T' a) = rid \<and> address_to_room_ids T' a \<noteq> []
       \<and> rid \<notin> set (tl (address_to_room_ids T' a))
       \<and> count_list (address_to_room_ids T' a) rid = 1
       \<and> tl (address_to_room_ids T' a) =
           filter (\<lambda>r. r \<noteq> rid) (get_room_ids_for_address T a)
       \<and> subseq (tl (address_to_room_ids T' a)) (address_to_room_ids T a)"
    using stored count sub by simp
  from parts kept others inv show ?thesis
    by blast
qed

theorem set_room_id_for_address_front_witness:
  "set_room_id_for_address [1] ''!r2'' example_rooms1 = (None, example_rooms2)
   \<and> reachable_rooms example_rooms1
   \<and> hd (address_to_room_ids example_rooms2 [1]) = ''!r2''
   \<and> count_list (address_to_room_ids example_rooms2 [1]) ''!r2'' = 1
   \<and> tl (address_to_room_ids example_rooms2 [1]) = [''!r1'']
   \<and> (\<forall>b. distinct (address_to_room_ids example_rooms2 b))"
proof -
  have first: "set_room_id_for_address [1] ''!r1'' example_rooms0 = (None, example_rooms1)"
    by (simp add: set_room_id_for_address_def get_room_ids_for_address_def
        example_rooms0_def example_rooms1_def)
  have second: "set_room_id_for_address [1] ''!r2'' example_rooms1 = (None, example_rooms2)"
    by (simp add: set_room_id_for_address_def get_room_ids_for_address_def room_is_private_def
        example_rooms0_def example_rooms1_def example_rooms2_def private_room_def)
  have "reachable_rooms example_rooms0"
    by (rule reachable_rooms.init) (simp add: example_rooms0_def)
  then have reach: "reachable_rooms example_rooms1"
    using first by (rule reachable_rooms.set_room)
  have visible: "get_room_ids_for_address example_rooms1 [1] = [''!r1'']"
    by (simp add: get_room_ids_for_address_def room_is_private_def example_rooms0_def
        example_rooms1_def private_room_def)
  show ?thesis
    using set_room_id_for_address_front [OF second] reach second visible by simp
qed

text \<open>
  C10 as stated fails for a stored id that the read filter hides: in a state reached from
  the empty map the list of the peer is \<^verbatim>\<open>!pub\<close>, \<^verbatim>\<open>!r2\<close>; after
  \<^verbatim>\<open>_set_room_id_for_address\<close> with \<^verbatim>\<open>!r1\<close> it is \<^verbatim>\<open>!r1\<close>, \<^verbatim>\<open>!r2\<close>. The id
  \<^verbatim>\<open>!pub\<close>, which stood before \<^verbatim>\<open>!r2\<close>, is gone.
\<close>

theorem set_room_id_for_address_drops_hidden_id:
  "reachable_rooms mixed_rooms2
   \<and> address_to_room_ids mixed_rooms2 [1] = [''!pub'', ''!r2'']
   \<and> set_room_id_for_address [1] ''!r1'' mixed_rooms2 = (None, mixed_rooms3)
   \<and> address_to_room_ids mixed_rooms3 [1] = [''!r1'', ''!r2'']
   \<and> ''!pub'' \<in> set (address_to_room_ids mixed_rooms2 [1])
   \<and> ''!pub'' \<notin> set (address_to_room_ids mixed_rooms3 [1])"
proof -
  have first: "set_room_id_for_address [1] ''!r2'' mixed_rooms0 = (None, mixed_rooms1)"
    by (simp add: set_room_id_for_address_def get_room_ids_for_address_def
        mixed_rooms0_def mixed_rooms1_def)
  have second: "set_room_id_for_address [1] ''!pub'' mixed_rooms1 = (None, mixed_rooms2)"
    by (simp add: set_room_id_for_address_def get_room_ids_for_address_def room_is_private_def
        mixed_rooms0_def mixed_rooms1_def mixed_rooms2_def private_room_def public_room_def)
  have third: "set_room_id_for_address [1] ''!r1'' mixed_rooms2 = (None, mixed_rooms3)"
    by (simp add: set_room_id_for_address_def get_room_ids_for_address_def room_is_private_def
        mixed_rooms0_def mixed_rooms2_def mixed_rooms3_def private_room_def public_room_def)
  have "reachable_rooms mixed_rooms0"
    by (rule reachable_rooms.init) (simp add: mixed_rooms0_def)
  then have "reachable_rooms mixed_rooms1"
    using first by (rule reachable_rooms.set_room)
  then have reach: "reachable_rooms mixed_rooms2"
    using second by (rule reachable_rooms.set_room)
  have lists: "address_to_room_ids mixed_rooms2 [1] = [''!pub'', ''!r2'']"
    "address_to_room_ids mixed_rooms3 [1] = [''!r1'', ''!r2'']"
    by (simp_all add: mixed_rooms0_def mixed_rooms2_def mixed_rooms3_def)
  show ?thesis
    using reach third by (simp add: lists)
qed

section \<open>The retry queue: results\<close>

lemma already_queued_iff:
  "already_queued qid m q \<longleftrightarrow>
     (\<exists>d \<in> set (message_queue q). md_queue_identifier d = qid \<and> md_message d = m)"
  by (auto simp: already_queued_def list_ex_iff)

lemma already_queued_after_enqueue:
  "recipient qid = receiver q \<Longrightarrow> already_queued qid m (snd (enqueue E T qid m q))"
  by (auto simp: enqueue_def already_queued_iff notify_def)

lemma receiver_enqueue: "receiver (snd (enqueue E T qid m q)) = receiver q"
  by (simp add: enqueue_def notify_def)

lemma retrieable_not_send_once:
  "isinstance_RetrieableMessage m \<Longrightarrow> \<not> isinstance_Delivered_Ping_Pong m"
  by (cases m) simp_all

lemma message_is_in_queue_retrieable:
  "message_is_in_queue T d \<Longrightarrow> isinstance_RetrieableMessage (md_message d)"
  by (auto simp: message_is_in_queue_def list_ex_iff split: option.splits)

lemma check_and_send_loop_eq:
  "check_and_send_loop T now queue =
     (map md_text
        (filter (\<lambda>d. isinstance_Delivered_Ping_Pong (md_message d) \<or>
                     message_is_in_queue T d \<and>
                     fst (expiration_generator_next now (md_expiration_generator d))) queue),
      map (\<lambda>d. d\<lparr>md_expiration_generator :=
                   snd (expiration_generator_next now (md_expiration_generator d))\<rparr>)
        (filter (\<lambda>d. \<not> isinstance_Delivered_Ping_Pong (md_message d) \<and>
                     message_is_in_queue T d) queue))"
  by (induction queue) (auto split: prod.splits)

lemma check_and_send_unreachable:
  "address_reachability T (receiver q) \<noteq> REACHABLE \<Longrightarrow>
     check_and_send E T now q =
       (None, q,
        if greenlet_started T \<and> \<not> stop_event T \<and> prioritize_broadcast_messages T
        then [BroadcastQueueJoin] else [])"
  by (simp add: check_and_send_def Let_def)

lemma check_and_send_buffer:
  "message_queue (fst (snd (check_and_send E T now q))) =
     (if greenlet_started T \<and> \<not> stop_event T \<and> address_reachability T (receiver q) = REACHABLE
      then snd (check_and_send_loop T now (message_queue q)) else message_queue q)"
  by (auto simp: check_and_send_def Let_def split: prod.splits)

lemma check_and_send_raises:
  "check_and_send E T now q = (Some e, q', fx) \<Longrightarrow>
     greenlet_started T \<and> \<not> stop_event T \<and> address_reachability T (receiver q) = REACHABLE"
  by (auto simp: check_and_send_def Let_def split: prod.splits if_splits)

lemma check_and_send_idle_since:
  "idle_since (fst (snd (check_and_send E T now q))) = idle_since q"
  by (auto simp: check_and_send_def Let_def split: prod.splits)

lemma run_iteration_nonempty:
  "message_queue q \<noteq> [] \<Longrightarrow> idle_since (fst (snd (run_iteration E T now q))) = 0"
  by (simp add: run_iteration_def Let_def check_and_send_idle_since)

lemma run_iteration_empty:
  "message_queue q = [] \<Longrightarrow>
     run_iteration E T now q =
       (None, q\<lparr>notify_event := False, idle_since := idle_since q + 1\<rparr>, [])"
  by (simp add: run_iteration_def Let_def)

lemma idle_since_enqueue: "idle_since (snd (enqueue E T qid m q)) = idle_since q"
  by (simp add: enqueue_def notify_def)

lemma idle_since_arrive: "idle_since (arrive E tk q) = idle_since q"
proof -
  have "idle_since (fold (\<lambda>(qid, m) q. snd (enqueue E T qid m q)) xs q) = idle_since q"
    for T :: transport and xs
    by (induction xs arbitrary: q) (auto simp: idle_since_enqueue)
  then show ?thesis by (simp add: arrive_def)
qed

lemma run_step_Continue:
  "run_step E tk q = Continue q' fx \<Longrightarrow> \<not> is_idle q' \<and> \<not> stop_event (tk_transport tk)"
  by (auto simp: run_step_def Let_def split: if_splits prod.splits option.splits)

lemma run_step_Exit:
  assumes "run_step E tk q = Exit x q' fx" and "\<not> is_idle q"
  shows "(x = Idle \<longleftrightarrow> is_idle q')"
    and "x = Stopped \<longrightarrow> stop_event (tk_transport tk)"
    and "x = Idle \<longrightarrow> idle_since q' = RETRY_QUEUE_IDLE_AFTER \<and> message_queue q' = []"
proof -
  let ?q0 = "arrive E tk q"
  have ni: "\<not> is_idle ?q0"
    using assms(2) by (simp add: is_idle_def idle_since_arrive)
  show "x = Stopped \<longrightarrow> stop_event (tk_transport tk)"
    using assms(1) by (auto simp: run_step_def Let_def split: if_splits prod.splits option.splits)
  show "(x = Idle \<longleftrightarrow> is_idle q')"
  proof (cases "stop_event (tk_transport tk)")
    case True
    then show ?thesis using assms(1) ni by (auto simp: run_step_def Let_def)
  next
    case False
    show ?thesis
    proof (cases "message_queue ?q0 = []")
      case True
      then show ?thesis
        using assms(1) False
        by (auto simp: run_step_def Let_def run_iteration_empty split: if_splits)
    next
      case ne: False
      have "idle_since (fst (snd (run_iteration E (tk_transport tk) (tk_now tk) ?q0))) = 0"
        using ne by (rule run_iteration_nonempty)
      then show ?thesis
        using assms(1) False
        by (auto simp: run_step_def Let_def is_idle_def RETRY_QUEUE_IDLE_AFTER_def
            split: if_splits prod.splits option.splits)
    qed
  qed
  show "x = Idle \<longrightarrow> idle_since q' = RETRY_QUEUE_IDLE_AFTER \<and> message_queue q' = []"
  proof (cases "message_queue ?q0 = []")
    case True
    then show ?thesis
      using assms(1) ni
      by (auto simp: run_step_def Let_def run_iteration_empty is_idle_def idle_since_arrive
          split: if_splits)
  next
    case ne: False
    have "idle_since (fst (snd (run_iteration E (tk_transport tk) (tk_now tk) ?q0))) = 0"
      using ne by (rule run_iteration_nonempty)
    then show ?thesis
      using assms(1)
      by (auto simp: run_step_def Let_def is_idle_def RETRY_QUEUE_IDLE_AFTER_def
          split: if_splits prod.splits option.splits)
  qed
qed

lemma run_loop_exit:
  assumes "run_loop E tks q = (Some x, q', fx)" and "\<not> is_idle q"
  shows "(x = Idle \<longleftrightarrow> is_idle q')
       \<and> (x = Stopped \<longrightarrow> (\<exists>tk \<in> set tks. stop_event (tk_transport tk)))
       \<and> (x = Idle \<longrightarrow> idle_since q' = RETRY_QUEUE_IDLE_AFTER \<and> message_queue q' = [])"
  using assms
proof (induction tks arbitrary: q fx)
  case Nil
  then show ?case by simp
next
  case (Cons tk tks)
  show ?case
  proof (cases "run_step E tk q")
    case (Exit y p gx)
    with Cons.prems have "y = x" "q' = p\<lparr>greenlet_ready := True\<rparr>" by auto
    then show ?thesis
      using run_step_Exit [OF Exit Cons.prems(2)] by (auto simp: is_idle_def)
  next
    case (Continue p gx)
    then obtain fx' where "run_loop E tks p = (Some x, q', fx')"
      using Cons.prems by (auto split: prod.splits)
    moreover have "\<not> is_idle p" using run_step_Continue [OF Continue] by simp
    ultimately show ?thesis using Cons.IH by fastforce
  qed
qed

lemma run_loop_idle_exit:
  assumes "message_queue q = []" and "idle_since q < RETRY_QUEUE_IDLE_AFTER"
    and "list_all quiet tks" and "RETRY_QUEUE_IDLE_AFTER - idle_since q \<le> length tks"
  shows "run_loop E tks q =
     (Some Idle,
      q\<lparr>notify_event := False, idle_since := RETRY_QUEUE_IDLE_AFTER, greenlet_ready := True\<rparr>, [])"
  using assms
proof (induction tks arbitrary: q)
  case Nil
  then show ?case by simp
next
  case (Cons tk tks)
  let ?p = "q\<lparr>notify_event := False, idle_since := idle_since q + 1\<rparr>"
  from Cons.prems have tk: "\<not> stop_event (tk_transport tk)" "arrive E tk q = q"
    by (simp_all add: quiet_def arrive_def)
  show ?case
  proof (cases "idle_since q + 1 = RETRY_QUEUE_IDLE_AFTER")
    case True
    then have "run_step E tk q = Exit Idle ?p []"
      using tk Cons.prems(1) by (simp add: run_step_def run_iteration_empty is_idle_def)
    then show ?thesis using True by simp
  next
    case False
    with Cons.prems(2) have lt: "idle_since ?p < RETRY_QUEUE_IDLE_AFTER" by simp
    then have "run_step E tk q = Continue ?p []"
      using tk Cons.prems(1) by (simp add: run_step_def run_iteration_empty is_idle_def)
    moreover have "run_loop E tks ?p =
       (Some Idle, ?p\<lparr>notify_event := False, idle_since := RETRY_QUEUE_IDLE_AFTER,
          greenlet_ready := True\<rparr>, [])"
      using Cons.prems lt by (intro Cons.IH) simp_all
    ultimately show ?thesis by simp
  qed
qed

lemmas example_defs =
  example_transport_def example_env_def failing_env_def example_queue_def
  transfer_entry_def delivered_entry_def transfer_message_def channel_queue_def
  unordered_queue_def new_retry_queue_def new_expiration_generator_def private_room_def
  example_peer_def example_node_def

text \<open>
  C6. When an entry with the same queue identifier and the same message is buffered,
  \<^verbatim>\<open>enqueue\<close> leaves the queue as it is (and returns normally when the recipient is the
  receiver of the queue). In particular a second \<^verbatim>\<open>enqueue\<close> of the same pair changes
  nothing, so the size of the buffer stays the same.
\<close>

theorem enqueue_duplicate_ignored:
  "((\<exists>d \<in> set (message_queue q). md_queue_identifier d = qid \<and> md_message d = m) \<longrightarrow>
      snd (enqueue E T qid m q) = q \<and>
      (recipient qid = receiver q \<longrightarrow> enqueue E T qid m q = (None, q)))
   \<and> snd (enqueue E T qid m (snd (enqueue E T qid m q))) = snd (enqueue E T qid m q)
   \<and> length (message_queue (snd (enqueue E T qid m (snd (enqueue E T qid m q))))) =
       length (message_queue (snd (enqueue E T qid m q)))"
proof -
  have idem: "snd (enqueue E T qid m (snd (enqueue E T qid m q))) = snd (enqueue E T qid m q)"
  proof (cases "recipient qid = receiver q")
    case True
    then have "already_queued qid m (snd (enqueue E T qid m q))"
      by (rule already_queued_after_enqueue)
    then show ?thesis
      by (simp add: enqueue_def [of E T qid m "snd (enqueue E T qid m q)"])
  next
    case False
    then show ?thesis by (simp add: enqueue_def)
  qed
  have "(\<exists>d \<in> set (message_queue q). md_queue_identifier d = qid \<and> md_message d = m) \<longrightarrow>
      snd (enqueue E T qid m q) = q \<and>
      (recipient qid = receiver q \<longrightarrow> enqueue E T qid m q = (None, q))"
    by (auto simp: enqueue_def already_queued_iff)
  with idem show ?thesis by simp
qed

theorem enqueue_duplicate_ignored_witness:
  "md_queue_identifier transfer_entry = channel_queue
   \<and> md_message transfer_entry = transfer_message
   \<and> recipient channel_queue = receiver (example_queue [transfer_entry])
   \<and> enqueue example_env example_transport channel_queue transfer_message
       (example_queue [transfer_entry]) = (None, example_queue [transfer_entry])"
  using enqueue_duplicate_ignored [of "example_queue [transfer_entry]" channel_queue
      transfer_message example_env example_transport]
  by (simp add: example_queue_def transfer_entry_def channel_queue_def new_retry_queue_def)

text \<open>
  C2. When the reachability of the receiver is not \<^verbatim>\<open>REACHABLE\<close>, \<^verbatim>\<open>_check_and_send\<close>
  returns with the queue unchanged and at most the wait for the broadcast queue as its
  effect; one iteration of the main loop leaves the buffer as it is and calls neither
  \<^verbatim>\<open>_send_raw\<close> nor \<^verbatim>\<open>send_text\<close>.
\<close>

theorem check_and_send_unreachable_no_send:
  assumes "address_reachability T (receiver q) \<noteq> REACHABLE"
  shows "check_and_send E T now q =
           (None, q,
            if greenlet_started T \<and> \<not> stop_event T \<and> prioritize_broadcast_messages T
            then [BroadcastQueueJoin] else [])
       \<and> message_queue (fst (snd (run_iteration E T now q))) = message_queue q
       \<and> (\<forall>a data. SendRaw a data \<notin> set (snd (snd (run_iteration E T now q))))
       \<and> (\<forall>r data. RoomSendText r data \<notin> set (snd (snd (run_iteration E T now q))))"
  using assms
  by (simp add: run_iteration_def Let_def check_and_send_unreachable)

theorem check_and_send_unreachable_no_send_witness:
  "address_reachability unreachable_transport
     (receiver (example_queue [transfer_entry, delivered_entry])) = UNREACHABLE
   \<and> check_and_send example_env unreachable_transport 0
       (example_queue [transfer_entry, delivered_entry]) =
       (None, example_queue [transfer_entry, delivered_entry], [BroadcastQueueJoin])
   \<and> message_queue (fst (snd (run_iteration example_env unreachable_transport 0
       (example_queue [transfer_entry, delivered_entry])))) = [transfer_entry, delivered_entry]"
  using check_and_send_unreachable_no_send [of unreachable_transport
      "example_queue [transfer_entry, delivered_entry]" example_env 0]
  by (simp add: unreachable_transport_def example_transport_def example_queue_def
      new_retry_queue_def)

text \<open>
  C5, as amended. In the pass of \<^verbatim>\<open>_check_and_send\<close> over the buffer, the text of
  every \<^verbatim>\<open>Delivered\<close>, \<^verbatim>\<open>Ping\<close> or \<^verbatim>\<open>Pong\<close> entry is collected and the entry is removed:
  no such entry is left, so no later pass collects it again. The text of a retrieable
  entry that is still pending in the application's queue and whose expiration generator
  answers True is collected, and the entry stays in the buffer (with the generator
  advanced).
\<close>

theorem check_and_send_loop_entries:
  assumes "check_and_send_loop T now queue = (message_texts, kept)"
  shows "(\<forall>d \<in> set queue. isinstance_Delivered_Ping_Pong (md_message d) \<longrightarrow>
            md_text d \<in> set message_texts \<and> d \<notin> set kept)
       \<and> (\<forall>d \<in> set kept. \<not> isinstance_Delivered_Ping_Pong (md_message d))
       \<and> (\<forall>d \<in> set queue.
            isinstance_RetrieableMessage (md_message d) \<and> message_is_in_queue T d \<and>
            fst (expiration_generator_next now (md_expiration_generator d)) \<longrightarrow>
            md_text d \<in> set message_texts \<and>
            d\<lparr>md_expiration_generator :=
                snd (expiration_generator_next now (md_expiration_generator d))\<rparr> \<in> set kept)"
proof -
  from assms have texts: "message_texts = map md_text
        (filter (\<lambda>d. isinstance_Delivered_Ping_Pong (md_message d) \<or>
                     message_is_in_queue T d \<and>
                     fst (expiration_generator_next now (md_expiration_generator d))) queue)"
    and kept: "kept = map (\<lambda>d. d\<lparr>md_expiration_generator :=
                   snd (expiration_generator_next now (md_expiration_generator d))\<rparr>)
        (filter (\<lambda>d. \<not> isinstance_Delivered_Ping_Pong (md_message d) \<and>
                     message_is_in_queue T d) queue)"
    by (simp_all add: check_and_send_loop_eq)
  have no_once: "\<forall>d \<in> set kept. \<not> isinstance_Delivered_Ping_Pong (md_message d)"
    by (auto simp: kept)
  have once: "\<forall>d \<in> set queue. isinstance_Delivered_Ping_Pong (md_message d) \<longrightarrow>
            md_text d \<in> set message_texts \<and> d \<notin> set kept"
    using no_once by (auto simp: texts)
  have retry: "\<forall>d \<in> set queue.
            isinstance_RetrieableMessage (md_message d) \<and> message_is_in_queue T d \<and>
            fst (expiration_generator_next now (md_expiration_generator d)) \<longrightarrow>
            md_text d \<in> set message_texts \<and>
            d\<lparr>md_expiration_generator :=
                snd (expiration_generator_next now (md_expiration_generator d))\<rparr> \<in> set kept"
    by (auto simp: texts kept dest: retrieable_not_send_once)
  show ?thesis using once no_once retry by blast
qed

theorem check_and_send_loop_entries_witness:
  "check_and_send_loop example_transport 0 [transfer_entry, delivered_entry] =
     ([''{LockedTransfer}'', ''{Delivered}''],
      [transfer_entry\<lparr>md_expiration_generator :=
         snd (expiration_generator_next 0 (md_expiration_generator transfer_entry))\<rparr>])
   \<and> isinstance_Delivered_Ping_Pong (md_message delivered_entry)
   \<and> isinstance_RetrieableMessage (md_message transfer_entry)
   \<and> message_is_in_queue example_transport transfer_entry
   \<and> fst (expiration_generator_next 0 (md_expiration_generator transfer_entry))
   \<and> md_text delivered_entry \<in> set [''{LockedTransfer}'', ''{Delivered}'']
   \<and> md_text transfer_entry \<in> set [''{LockedTransfer}'', ''{Delivered}'']"
proof -
  have run: "check_and_send_loop example_transport 0 [transfer_entry, delivered_entry] =
     ([''{LockedTransfer}'', ''{Delivered}''],
      [transfer_entry\<lparr>md_expiration_generator :=
         snd (expiration_generator_next 0 (md_expiration_generator transfer_entry))\<rparr>])"
    by (simp add: example_defs message_is_in_queue_def expiration_generator_next_def)
  show ?thesis
    using check_and_send_loop_entries [OF run] run
    by (simp add: example_defs message_is_in_queue_def expiration_generator_next_def)
qed

text \<open>
  C5 as stated fails for a retrieable entry that the application no longer queues: its
  expiration generator is fresh, so its first answer is True, yet the entry is removed and
  its text is not collected.
\<close>

theorem retryable_ready_entry_dropped:
  "isinstance_RetrieableMessage (md_message transfer_entry)
   \<and> fst (expiration_generator_next 0 (md_expiration_generator transfer_entry))
   \<and> check_and_send_loop (example_transport\<lparr>queueids_to_queues := Map.empty\<rparr>) 0
       [transfer_entry] = ([], [])"
  by (simp add: example_defs message_is_in_queue_def expiration_generator_next_def)

text \<open>
  C4, as amended. When \<^verbatim>\<open>_send_raw\<close> raises inside \<^verbatim>\<open>_check_and_send\<close>, the buffer is
  the one the pass over the entries left before the send, whatever the sends do: every
  retrieable entry still pending in the application's queue is buffered (its generator
  advanced), and no \<^verbatim>\<open>Delivered\<close>, \<^verbatim>\<open>Ping\<close> or \<^verbatim>\<open>Pong\<close> entry is left: those were
  removed before the send.
\<close>

theorem check_and_send_failed_send:
  assumes "check_and_send E T now q = (Some e, q', fx)"
  shows "message_queue q' = snd (check_and_send_loop T now (message_queue q))
       \<and> (\<forall>E'. message_queue (fst (snd (check_and_send E' T now q))) = message_queue q')
       \<and> (\<forall>d \<in> set (message_queue q).
            isinstance_RetrieableMessage (md_message d) \<and> message_is_in_queue T d \<longrightarrow>
            d\<lparr>md_expiration_generator :=
                snd (expiration_generator_next now (md_expiration_generator d))\<rparr>
              \<in> set (message_queue q'))
       \<and> (\<forall>d \<in> set (message_queue q'). \<not> isinstance_Delivered_Ping_Pong (md_message d))"
proof -
  have gates: "greenlet_started T \<and> \<not> stop_event T \<and>
      address_reachability T (receiver q) = REACHABLE"
    using assms by (rule check_and_send_raises)
  have "message_queue q' = message_queue (fst (snd (check_and_send E T now q)))"
    using assms by simp
  then have buffer: "message_queue q' = snd (check_and_send_loop T now (message_queue q))"
    using gates by (simp add: check_and_send_buffer)
  have same: "\<forall>E'. message_queue (fst (snd (check_and_send E' T now q))) = message_queue q'"
    using gates buffer by (simp add: check_and_send_buffer)
  have kept: "\<forall>d \<in> set (message_queue q).
            isinstance_RetrieableMessage (md_message d) \<and> message_is_in_queue T d \<longrightarrow>
            d\<lparr>md_expiration_generator :=
                snd (expiration_generator_next now (md_expiration_generator d))\<rparr>
              \<in> set (message_queue q')"
    by (auto simp: buffer check_and_send_loop_eq dest: retrieable_not_send_once)
  have once: "\<forall>d \<in> set (message_queue q'). \<not> isinstance_Delivered_Ping_Pong (md_message d)"
    by (auto simp: buffer check_and_send_loop_eq)
  show ?thesis using buffer same kept once by blast
qed

lemma example_room_for_peer:
  "get_room_for_address example_transport example_peer True =
     Inr (Some ((private_room ''!r1'')\<lparr>joined_members := [''@me:server'', ''@peer:server'']\<rparr>))"
  by (simp add: get_room_for_address_def room_candidates_def get_room_ids_for_address_def
      room_is_private_def is_broadcast_room_def has_online_peers_def online_userids_def
      USER_PRESENCE_REACHABLE_STATES_def List.map_filter_simps
      example_transport_def private_room_def example_peer_def)

lemma example_transport_gates:
  "greenlet_started example_transport" "\<not> stop_event example_transport"
  "\<not> prioritize_broadcast_messages example_transport"
  "address_reachability example_transport example_peer = REACHABLE"
  by (simp_all add: example_transport_def)

lemma example_loop:
  "check_and_send_loop example_transport 0 [transfer_entry, delivered_entry] =
     ([''{LockedTransfer}'', ''{Delivered}''],
      [transfer_entry\<lparr>md_expiration_generator :=
         snd (expiration_generator_next 0 (md_expiration_generator transfer_entry))\<rparr>])"
  by (simp add: example_defs message_is_in_queue_def expiration_generator_next_def)

lemma example_loop_delivered:
  "check_and_send_loop example_transport 0 [delivered_entry] = ([''{Delivered}''], [])"
  by (simp add: example_defs)

theorem check_and_send_failed_send_witness:
  "check_and_send failing_env example_transport 0
      (example_queue [transfer_entry, delivered_entry]) =
     (Some (MatrixRequestError 500),
      example_queue [transfer_entry\<lparr>md_expiration_generator :=
         snd (expiration_generator_next 0 (md_expiration_generator transfer_entry))\<rparr>],
      [SendRaw example_peer (''{LockedTransfer}'' @ CHR 0x0A # ''{Delivered}''),
       RoomSendText ''!r1'' (''{LockedTransfer}'' @ CHR 0x0A # ''{Delivered}'')])
   \<and> isinstance_RetrieableMessage (md_message transfer_entry)
   \<and> message_is_in_queue example_transport transfer_entry
   \<and> transfer_entry\<lparr>md_expiration_generator :=
         snd (expiration_generator_next 0 (md_expiration_generator transfer_entry))\<rparr>
       \<in> set (message_queue (example_queue [transfer_entry\<lparr>md_expiration_generator :=
         snd (expiration_generator_next 0 (md_expiration_generator transfer_entry))\<rparr>]))"
proof -
  have run: "check_and_send failing_env example_transport 0
      (example_queue [transfer_entry, delivered_entry]) =
     (Some (MatrixRequestError 500),
      example_queue [transfer_entry\<lparr>md_expiration_generator :=
         snd (expiration_generator_next 0 (md_expiration_generator transfer_entry))\<rparr>],
      [SendRaw example_peer (''{LockedTransfer}'' @ CHR 0x0A # ''{Delivered}''),
       RoomSendText ''!r1'' (''{LockedTransfer}'' @ CHR 0x0A # ''{Delivered}'')])"
    by (simp add: check_and_send_def example_transport_gates example_loop send_raw_def
        example_room_for_peer example_queue_def new_retry_queue_def failing_env_def
        example_env_def private_room_def del: check_and_send_loop.simps)
  have pending: "isinstance_RetrieableMessage (md_message transfer_entry)
      \<and> message_is_in_queue example_transport transfer_entry"
    by (simp add: example_defs message_is_in_queue_def)
  have buffered: "transfer_entry \<in> set (message_queue (example_queue [transfer_entry, delivered_entry]))"
    by (simp add: example_queue_def)
  have "\<forall>d \<in> set (message_queue (example_queue [transfer_entry, delivered_entry])).
      isinstance_RetrieableMessage (md_message d) \<and> message_is_in_queue example_transport d \<longrightarrow>
      d\<lparr>md_expiration_generator :=
          snd (expiration_generator_next 0 (md_expiration_generator d))\<rparr>
        \<in> set (message_queue (example_queue [transfer_entry\<lparr>md_expiration_generator :=
         snd (expiration_generator_next 0 (md_expiration_generator transfer_entry))\<rparr>]))"
    using check_and_send_failed_send [OF run] by blast
  then have kept: "transfer_entry\<lparr>md_expiration_generator :=
         snd (expiration_generator_next 0 (md_expiration_generator transfer_entry))\<rparr>
       \<in> set (message_queue (example_queue [transfer_entry\<lparr>md_expiration_generator :=
         snd (expiration_generator_next 0 (md_expiration_generator transfer_entry))\<rparr>]))"
    using buffered pending by blast
  show ?thesis
    using run pending kept by blast
qed

text \<open>
  C4 as stated fails for a \<^verbatim>\<open>Delivered\<close> entry: its text is collected and handed to
  \<^verbatim>\<open>_send_raw\<close>, the room's \<^verbatim>\<open>send_text\<close> raises, and the buffer is empty
  afterwards.
\<close>

theorem collected_entry_lost_on_failed_send:
  "check_and_send failing_env example_transport 0 (example_queue [delivered_entry]) =
     (Some (MatrixRequestError 500), example_queue [],
      [SendRaw example_peer ''{Delivered}'', RoomSendText ''!r1'' ''{Delivered}''])"
  by (simp add: check_and_send_def example_transport_gates example_loop_delivered send_raw_def
      example_room_for_peer example_queue_def new_retry_queue_def failing_env_def
      example_env_def private_room_def del: check_and_send_loop.simps)

lemma run_loop_head:
  assumes "\<not> stop_event (tk_transport tk)"
    and "run_iteration E (tk_transport tk) (tk_now tk) (arrive E tk q) = (r, p, gx)"
  shows "run_loop E (tk # tks) q =
     (case r of
        Some e \<Rightarrow> (Some (Crashed e), p\<lparr>greenlet_ready := True\<rparr>, gx)
      | None \<Rightarrow>
          if is_idle p then (Some Idle, p\<lparr>greenlet_ready := True\<rparr>, gx)
          else (case run_loop E tks p of (x, q', fx) \<Rightarrow> (x, q', gx @ fx)))"
  using assms by (simp add: run_step_def split: option.splits)

text \<open>
  C7, as amended. \<^verbatim>\<open>is_idle\<close> holds iff \<^verbatim>\<open>_idle_since\<close> has reached
  \<^verbatim>\<open>RETRY_QUEUE_IDLE_AFTER\<close>, which is 10. An iteration with a non-empty buffer leaves
  the counter at zero, one with an empty buffer adds one. A loop started on a queue that is
  not idle ends with \<^verbatim>\<open>Idle\<close> exactly when \<^verbatim>\<open>is_idle\<close> holds at its end (the counter is
  then 10 and the buffer is empty), and it also ends, without being idle, when the stop
  event of the transport is set at the head of an iteration or when an iteration raises.
  Pass by pass: a stop found at the head of a pass ends the loop with \<^verbatim>\<open>Stopped\<close>; an
  iteration that raises ends it with that exception; an iteration that returns ends it with
  \<^verbatim>\<open>Idle\<close> when the queue is idle afterwards, and otherwise the loop goes on with the
  next pass. An empty queue that is given enough iterations without arrivals and without a
  stop ends with \<^verbatim>\<open>Idle\<close>.
\<close>

theorem run_loop_termination:
  "(is_idle q \<longleftrightarrow> RETRY_QUEUE_IDLE_AFTER \<le> idle_since q) \<and> RETRY_QUEUE_IDLE_AFTER = 10
   \<and> (message_queue q \<noteq> [] \<longrightarrow> idle_since (fst (snd (run_iteration E T now q))) = 0)
   \<and> (message_queue q = [] \<longrightarrow>
        run_iteration E T now q =
          (None, q\<lparr>notify_event := False, idle_since := idle_since q + 1\<rparr>, []))
   \<and> (\<forall>x q' fx. \<not> is_idle q \<and> run_loop E tks q = (Some x, q', fx) \<longrightarrow>
        (x = Idle \<longleftrightarrow> is_idle q') \<and>
        (x = Stopped \<longrightarrow> (\<exists>tk \<in> set tks. stop_event (tk_transport tk))) \<and>
        (x = Idle \<longrightarrow> idle_since q' = RETRY_QUEUE_IDLE_AFTER \<and> message_queue q' = []))
   \<and> (message_queue q = [] \<and> \<not> is_idle q \<and> list_all quiet tks \<and>
        RETRY_QUEUE_IDLE_AFTER - idle_since q \<le> length tks \<longrightarrow>
        run_loop E tks q =
          (Some Idle,
           q\<lparr>notify_event := False, idle_since := RETRY_QUEUE_IDLE_AFTER,
             greenlet_ready := True\<rparr>, []))
   \<and> (tks \<noteq> [] \<and> stop_event (tk_transport (hd tks)) \<longrightarrow>
        run_loop E tks q = (Some Stopped, (arrive E (hd tks) q)\<lparr>greenlet_ready := True\<rparr>, []))
   \<and> (tks \<noteq> [] \<and> \<not> stop_event (tk_transport (hd tks)) \<and>
        run_iteration E (tk_transport (hd tks)) (tk_now (hd tks)) (arrive E (hd tks) q) =
          (Some e, p, gx) \<longrightarrow>
        run_loop E tks q = (Some (Crashed e), p\<lparr>greenlet_ready := True\<rparr>, gx))
   \<and> (tks \<noteq> [] \<and> \<not> stop_event (tk_transport (hd tks)) \<and>
        run_iteration E (tk_transport (hd tks)) (tk_now (hd tks)) (arrive E (hd tks) q) =
          (None, p, gx) \<and> is_idle p \<longrightarrow>
        run_loop E tks q = (Some Idle, p\<lparr>greenlet_ready := True\<rparr>, gx))
   \<and> (tks \<noteq> [] \<and> \<not> stop_event (tk_transport (hd tks)) \<and>
        run_iteration E (tk_transport (hd tks)) (tk_now (hd tks)) (arrive E (hd tks) q) =
          (None, p, gx) \<and> \<not> is_idle p \<longrightarrow>
        fst (run_loop E tks q) = fst (run_loop E (tl tks) p) \<and>
        fst (snd (run_loop E tks q)) = fst (snd (run_loop E (tl tks) p)) \<and>
        snd (snd (run_loop E tks q)) = gx @ snd (snd (run_loop E (tl tks) p)))"
proof -
  have a: "\<forall>x q' fx. \<not> is_idle q \<and> run_loop E tks q = (Some x, q', fx) \<longrightarrow>
        (x = Idle \<longleftrightarrow> is_idle q') \<and>
        (x = Stopped \<longrightarrow> (\<exists>tk \<in> set tks. stop_event (tk_transport tk))) \<and>
        (x = Idle \<longrightarrow> idle_since q' = RETRY_QUEUE_IDLE_AFTER \<and> message_queue q' = [])"
    using run_loop_exit by blast
  have b: "message_queue q = [] \<and> \<not> is_idle q \<and> list_all quiet tks \<and>
        RETRY_QUEUE_IDLE_AFTER - idle_since q \<le> length tks \<longrightarrow>
        run_loop E tks q =
          (Some Idle,
           q\<lparr>notify_event := False, idle_since := RETRY_QUEUE_IDLE_AFTER,
             greenlet_ready := True\<rparr>, [])"
    using run_loop_idle_exit [of q tks E] by (simp add: is_idle_def)
  have c: "tks \<noteq> [] \<and> stop_event (tk_transport (hd tks)) \<longrightarrow>
        run_loop E tks q = (Some Stopped, (arrive E (hd tks) q)\<lparr>greenlet_ready := True\<rparr>, [])"
    by (cases tks) (simp_all add: run_step_def)
  have d: "is_idle q \<longleftrightarrow> RETRY_QUEUE_IDLE_AFTER \<le> idle_since q"
    by (simp add: is_idle_def)
  have d': "RETRY_QUEUE_IDLE_AFTER = 10"
    by (simp add: RETRY_QUEUE_IDLE_AFTER_def)
  have e: "message_queue q \<noteq> [] \<longrightarrow> idle_since (fst (snd (run_iteration E T now q))) = 0"
    by (simp add: run_iteration_nonempty)
  have f: "message_queue q = [] \<longrightarrow>
        run_iteration E T now q =
          (None, q\<lparr>notify_event := False, idle_since := idle_since q + 1\<rparr>, [])"
    by (simp add: run_iteration_empty)
  have g: "tks \<noteq> [] \<and> \<not> stop_event (tk_transport (hd tks)) \<and>
        run_iteration E (tk_transport (hd tks)) (tk_now (hd tks)) (arrive E (hd tks) q) =
          (Some e, p, gx) \<longrightarrow>
        run_loop E tks q = (Some (Crashed e), p\<lparr>greenlet_ready := True\<rparr>, gx)"
    by (cases tks) (auto simp: run_loop_head simp del: run_loop.simps)
  have h: "tks \<noteq> [] \<and> \<not> stop_event (tk_transport (hd tks)) \<and>
        run_iteration E (tk_transport (hd tks)) (tk_now (hd tks)) (arrive E (hd tks) q) =
          (None, p, gx) \<and> is_idle p \<longrightarrow>
        run_loop E tks q = (Some Idle, p\<lparr>greenlet_ready := True\<rparr>, gx)"
    by (cases tks) (auto simp: run_loop_head simp del: run_loop.simps)
  have i: "tks \<noteq> [] \<and> \<not> stop_event (tk_transport (hd tks)) \<and>
        run_iteration E (tk_transport (hd tks)) (tk_now (hd tks)) (arrive E (hd tks) q) =
          (None, p, gx) \<and> \<not> is_idle p \<longrightarrow>
        fst (run_loop E tks q) = fst (run_loop E (tl tks) p) \<and>
        fst (snd (run_loop E tks q)) = fst (snd (run_loop E (tl tks) p)) \<and>
        snd (snd (run_loop E tks q)) = gx @ snd (snd (run_loop E (tl tks) p))"
    by (cases tks) (auto simp: run_loop_head simp del: run_loop.simps split: prod.splits)
  from d d' e f a b c g h i show ?thesis
    by - (intro conjI; assumption)
qed

lemma example_crash:
  "run_iteration failing_env (tk_transport quiet_tick) (tk_now quiet_tick)
      (arrive failing_env quiet_tick (example_queue [delivered_entry])) =
     (Some (MatrixRequestError 500), example_queue [],
      [SendRaw example_peer ''{Delivered}'', RoomSendText ''!r1'' ''{Delivered}''])"
  by (simp add: run_iteration_def arrive_def quiet_tick_def check_and_send_def
      example_transport_gates example_loop_delivered send_raw_def example_room_for_peer
      example_queue_def new_retry_queue_def failing_env_def example_env_def private_room_def
      del: check_and_send_loop.simps)

theorem run_loop_termination_witness:
  "\<not> is_idle (new_retry_queue example_peer)
   \<and> message_queue (new_retry_queue example_peer) = []
   \<and> list_all quiet (replicate 10 quiet_tick)
   \<and> run_loop example_env (replicate 10 quiet_tick) (new_retry_queue example_peer) =
       (Some Idle,
        (new_retry_queue example_peer)\<lparr>notify_event := False,
           idle_since := RETRY_QUEUE_IDLE_AFTER, greenlet_ready := True\<rparr>, [])
   \<and> is_idle ((new_retry_queue example_peer)\<lparr>notify_event := False,
           idle_since := RETRY_QUEUE_IDLE_AFTER, greenlet_ready := True\<rparr>)
   \<and> \<not> stop_event (tk_transport (hd [quiet_tick]))
   \<and> run_iteration failing_env (tk_transport quiet_tick) (tk_now quiet_tick)
        (arrive failing_env quiet_tick (example_queue [delivered_entry])) =
       (Some (MatrixRequestError 500), example_queue [],
        [SendRaw example_peer ''{Delivered}'', RoomSendText ''!r1'' ''{Delivered}''])
   \<and> run_loop failing_env [quiet_tick] (example_queue [delivered_entry]) =
       (Some (Crashed (MatrixRequestError 500)), (example_queue [])\<lparr>greenlet_ready := True\<rparr>,
        [SendRaw example_peer ''{Delivered}'', RoomSendText ''!r1'' ''{Delivered}''])"
proof -
  have pre: "\<not> is_idle (new_retry_queue example_peer)"
    "message_queue (new_retry_queue example_peer) = []"
    "list_all quiet (replicate 10 quiet_tick)"
    "RETRY_QUEUE_IDLE_AFTER - idle_since (new_retry_queue example_peer)
       \<le> length (replicate 10 quiet_tick)"
    by (simp_all add: is_idle_def new_retry_queue_def RETRY_QUEUE_IDLE_AFTER_def quiet_def
        quiet_tick_def example_transport_def list_all_iff)
  have "message_queue (new_retry_queue example_peer) = [] \<and>
      \<not> is_idle (new_retry_queue example_peer) \<and> list_all quiet (replicate 10 quiet_tick) \<and>
      RETRY_QUEUE_IDLE_AFTER - idle_since (new_retry_queue example_peer)
        \<le> length (replicate 10 quiet_tick) \<longrightarrow>
      run_loop example_env (replicate 10 quiet_tick) (new_retry_queue example_peer) =
        (Some Idle,
         (new_retry_queue example_peer)\<lparr>notify_event := False,
            idle_since := RETRY_QUEUE_IDLE_AFTER, greenlet_ready := True\<rparr>, [])"
    using run_loop_termination [of "new_retry_queue example_peer" example_env
        example_transport 0 "replicate 10 quiet_tick" "MatrixRequestError 500"
        "new_retry_queue example_peer" "[]"]
    by (elim conjE) assumption
  then have run: "run_loop example_env (replicate 10 quiet_tick) (new_retry_queue example_peer) =
        (Some Idle,
         (new_retry_queue example_peer)\<lparr>notify_event := False,
            idle_since := RETRY_QUEUE_IDLE_AFTER, greenlet_ready := True\<rparr>, [])"
    using pre by blast
  have idle: "is_idle ((new_retry_queue example_peer)\<lparr>notify_event := False,
           idle_since := RETRY_QUEUE_IDLE_AFTER, greenlet_ready := True\<rparr>)"
    by (simp add: is_idle_def)
  have nostop: "\<not> stop_event (tk_transport (hd [quiet_tick]))"
    by (simp add: quiet_tick_def example_transport_def)
  have "[quiet_tick] \<noteq> [] \<and> \<not> stop_event (tk_transport (hd [quiet_tick])) \<and>
      run_iteration failing_env (tk_transport (hd [quiet_tick])) (tk_now (hd [quiet_tick]))
        (arrive failing_env (hd [quiet_tick]) (example_queue [delivered_entry])) =
       (Some (MatrixRequestError 500), example_queue [],
        [SendRaw example_peer ''{Delivered}'', RoomSendText ''!r1'' ''{Delivered}'']) \<longrightarrow>
      run_loop failing_env [quiet_tick] (example_queue [delivered_entry]) =
       (Some (Crashed (MatrixRequestError 500)), (example_queue [])\<lparr>greenlet_ready := True\<rparr>,
        [SendRaw example_peer ''{Delivered}'', RoomSendText ''!r1'' ''{Delivered}''])"
    using run_loop_termination [of "example_queue [delivered_entry]" failing_env
        example_transport 0 "[quiet_tick]" "MatrixRequestError 500" "example_queue []"
        "[SendRaw example_peer ''{Delivered}'', RoomSendText ''!r1'' ''{Delivered}'']"]
    by (elim conjE) assumption
  then have crash: "run_loop failing_env [quiet_tick] (example_queue [delivered_entry]) =
       (Some (Crashed (MatrixRequestError 500)), (example_queue [])\<lparr>greenlet_ready := True\<rparr>,
        [SendRaw example_peer ''{Delivered}'', RoomSendText ''!r1'' ''{Delivered}''])"
    using nostop example_crash by simp
  from pre(1) pre(2) pre(3) run idle nostop example_crash crash show ?thesis
    by - (intro conjI; assumption)
qed

text \<open>
  C7 as stated fails when the transport stops: the loop of a fresh queue ends at once,
  and \<^verbatim>\<open>is_idle\<close> does not hold.
\<close>

theorem run_loop_stops_without_being_idle:
  "run_loop example_env [stopped_tick] (new_retry_queue example_peer) =
     (Some Stopped, (new_retry_queue example_peer)\<lparr>greenlet_ready := True\<rparr>, [])
   \<and> \<not> is_idle ((new_retry_queue example_peer)\<lparr>greenlet_ready := True\<rparr>)"
  by (simp add: run_step_def arrive_def stopped_tick_def is_idle_def new_retry_queue_def
      RETRY_QUEUE_IDLE_AFTER_def)

section \<open>Sending and receiving through the retry queues: results\<close>

lemma enqueue_ok: "recipient qid = receiver q \<Longrightarrow> fst (enqueue E T qid m q) = None"
  by (simp add: enqueue_def)

lemma enqueue_keys:
  "recipient qid = receiver q \<Longrightarrow>
     entry_key ` set (message_queue (snd (enqueue E T qid m q))) =
       insert (qid, m) (entry_key ` set (message_queue q))"
  by (auto simp: enqueue_def already_queued_iff notify_def entry_key_def)

lemma enqueue_distinct:
  "distinct (map entry_key (message_queue q)) \<Longrightarrow>
     distinct (map entry_key (message_queue (snd (enqueue E T qid m q))))"
  by (auto simp: enqueue_def already_queued_iff notify_def entry_key_def)

lemma enqueue_greenlet_ready:
  "greenlet_ready (snd (enqueue E T qid m q)) = greenlet_ready q"
  by (simp add: enqueue_def notify_def)

lemma get_retrier_cases:
  assumes "get_retrier T a = (r, T1)"
  shows "(address_to_retrier T a = Some r \<and> \<not> greenlet_ready r \<and> T1 = T) \<or>
         (r = new_retry_queue a \<and> T1 = put_retrier a (new_retry_queue a) T)"
  using assms
  by (auto simp: get_retrier_def put_retrier_def Let_def split: option.splits if_splits)

lemma get_retrier_live:
  assumes "holds_entry T a k" and "get_retrier T a = (r, T1)"
  shows "address_to_retrier T a = Some r \<and> T1 = T"
  using assms
  by (auto simp: get_retrier_def holds_entry_def Let_def split: option.splits if_splits)

lemma retriers_ok_put:
  "retriers_ok T \<Longrightarrow> receiver r = a \<Longrightarrow> distinct (map entry_key (message_queue r)) \<Longrightarrow>
     retriers_ok (put_retrier a r T)"
  by (simp add: retriers_ok_def put_retrier_def)

lemma holds_entry_put:
  "holds_entry (put_retrier a r T) b k \<longleftrightarrow>
     (if b = a then \<not> greenlet_ready r \<and> k \<in> entry_key ` set (message_queue r)
      else holds_entry T b k)"
  by (simp add: holds_entry_def put_retrier_def)

lemma send_delivered_step:
  assumes ok: "retriers_ok T"
    and s: "sender E m = Some a" and i: "message_identifier m = Some i"
  shows "\<exists>T'. send_delivered E m T =
            (None, T',
             [Enqueue a (QueueIdentifier a CANONICAL_IDENTIFIER_UNORDERED_QUEUE)
                (Delivered i (signer E (Delivered i EMPTY_SIGNATURE)))])
          \<and> retriers_ok T'
          \<and> holds_entry T' a
              (QueueIdentifier a CANONICAL_IDENTIFIER_UNORDERED_QUEUE,
               Delivered i (signer E (Delivered i EMPTY_SIGNATURE)))
          \<and> (\<forall>b k. holds_entry T b k \<longrightarrow> holds_entry T' b k)"
proof -
  let ?d = "Delivered i (signer E (Delivered i EMPTY_SIGNATURE))"
  let ?qid = "QueueIdentifier a CANONICAL_IDENTIFIER_UNORDERED_QUEUE"
  obtain r T1 where g: "get_retrier T a = (r, T1)" by (cases "get_retrier T a")
  define r' where "r' = snd (enqueue E T1 ?qid ?d r)"
  define T' where "T' = put_retrier a r' T1"
  have rcv: "receiver r = a" and dist: "distinct (map entry_key (message_queue r))"
    and live: "\<not> greenlet_ready r" and ok1: "retriers_ok T1"
    using get_retrier_cases [OF g] ok
    by (auto simp: retriers_ok_def new_retry_queue_def put_retrier_def split: if_splits)
  have none: "fst (enqueue E T1 ?qid ?d r) = None"
    by (rule enqueue_ok) (simp add: rcv)
  have run: "send_delivered E m T = (None, T', [Enqueue a ?qid ?d])"
    using none
    by (cases "enqueue E T1 ?qid ?d r")
      (simp add: send_delivered_def s i g enqueue_unordered_def rcv T'_def r'_def Let_def)
  have keys: "entry_key ` set (message_queue r') = insert (?qid, ?d) (entry_key ` set (message_queue r))"
    unfolding r'_def by (rule enqueue_keys) (simp add: rcv)
  have rcv': "receiver r' = a"
    by (simp add: r'_def receiver_enqueue rcv)
  have dist': "distinct (map entry_key (message_queue r'))"
    unfolding r'_def using dist by (rule enqueue_distinct)
  have live': "\<not> greenlet_ready r'"
    by (simp add: r'_def enqueue_greenlet_ready live)
  have ok': "retriers_ok T'"
    unfolding T'_def using ok1 rcv' dist' by (rule retriers_ok_put)
  have here: "holds_entry T' a (?qid, ?d)"
    by (simp add: T'_def holds_entry_put live' keys)
  have keep: "holds_entry T' b k" if h: "holds_entry T b k" for b k
  proof (cases "b = a")
    case False
    then have "holds_entry T1 b k"
      using get_retrier_cases [OF g] h by (auto simp: holds_entry_put)
    with False show ?thesis by (simp add: T'_def holds_entry_put)
  next
    case True
    with h get_retrier_live [OF _ g] have "address_to_retrier T a = Some r"
      by blast
    with h True have "k \<in> entry_key ` set (message_queue r)"
      by (auto simp: holds_entry_def)
    with True show ?thesis by (simp add: T'_def holds_entry_put live' keys)
  qed
  show ?thesis using run ok' here keep by blast
qed

lemma needs_delivered_fields:
  assumes "needs_delivered E m"
  obtains a i where "sender E m = Some a" "a \<noteq> []" "message_identifier m = Some i"
  using assms
  by (cases m) (auto simp: needs_delivered_def split: option.splits)

lemma acknowledge_all:
  assumes "retriers_ok T"
  shows "\<exists>T'. acknowledge E ms T = (None, T', concat (map (delivered_events E) ms))
          \<and> retriers_ok T'
          \<and> (\<forall>b k. holds_entry T b k \<longrightarrow> holds_entry T' b k)
          \<and> (\<forall>m \<in> set ms. \<forall>a i. needs_delivered E m \<and> sender E m = Some a \<and>
                message_identifier m = Some i \<longrightarrow>
                holds_entry T' a
                  (QueueIdentifier a CANONICAL_IDENTIFIER_UNORDERED_QUEUE,
                   Delivered i (signer E (Delivered i EMPTY_SIGNATURE))))"
  using assms
proof (induction ms arbitrary: T)
  case Nil
  then show ?case by simp
next
  case (Cons m ms)
  show ?case
  proof (cases "needs_delivered E m")
    case False
    then have "acknowledge E (m # ms) T = acknowledge E ms T"
      and "delivered_events E m = []"
      by (simp_all add: delivered_events_def)
    then show ?thesis using Cons.IH [OF Cons.prems] False by auto
  next
    case True
    then obtain a i where s: "sender E m = Some a" and i: "message_identifier m = Some i"
      by (rule needs_delivered_fields)
    let ?k = "(QueueIdentifier a CANONICAL_IDENTIFIER_UNORDERED_QUEUE,
               Delivered i (signer E (Delivered i EMPTY_SIGNATURE)))"
    from send_delivered_step [OF Cons.prems s i]
    obtain T1 where step: "send_delivered E m T = (None, T1, [Enqueue a (fst ?k) (snd ?k)])"
      and ok1: "retriers_ok T1" and here: "holds_entry T1 a ?k"
      and keep1: "\<forall>b k. holds_entry T b k \<longrightarrow> holds_entry T1 b k"
      by auto
    from Cons.IH [OF ok1]
    obtain T2 where rest: "acknowledge E ms T1 = (None, T2, concat (map (delivered_events E) ms))"
      and ok2: "retriers_ok T2"
      and keep2: "\<forall>b k. holds_entry T1 b k \<longrightarrow> holds_entry T2 b k"
      and all2: "\<forall>m \<in> set ms. \<forall>a i. needs_delivered E m \<and> sender E m = Some a \<and>
                message_identifier m = Some i \<longrightarrow>
                holds_entry T2 a
                  (QueueIdentifier a CANONICAL_IDENTIFIER_UNORDERED_QUEUE,
                   Delivered i (signer E (Delivered i EMPTY_SIGNATURE)))"
      by blast
    have ev: "delivered_events E m = [Enqueue a (fst ?k) (snd ?k)]"
      using True s i by (simp add: delivered_events_def)
    have run: "acknowledge E (m # ms) T = (None, T2, concat (map (delivered_events E) (m # ms)))"
      using True step rest ev by simp
    have "holds_entry T2 a ?k" using here keep2 by blast
    then have all: "\<forall>m' \<in> set (m # ms). \<forall>a i. needs_delivered E m' \<and> sender E m' = Some a \<and>
                message_identifier m' = Some i \<longrightarrow>
                holds_entry T2 a
                  (QueueIdentifier a CANONICAL_IDENTIFIER_UNORDERED_QUEUE,
                   Delivered i (signer E (Delivered i EMPTY_SIGNATURE)))"
      using all2 s i by auto
    show ?thesis using run ok2 keep1 keep2 all by blast
  qed
qed

lemma handle_texts_no_error:
  "\<not> is_broadcast_room (broadcast_rooms T) r \<Longrightarrow> \<exists>ms. handle_texts E T r ts = Inr ms"
proof (induction ts)
  case Nil
  show ?case by simp
next
  case (Cons t ts)
  then obtain ms where "handle_texts E T r ts = Inr ms" by blast
  moreover have "\<exists>ms. handle_text E T r t = Inr ms"
    using Cons.prems by (auto simp: handle_text_def Let_def split: option.splits)
  ultimately show ?case by auto
qed

lemma collect_messages_no_error: "\<exists>ms. collect_messages E T sync = Inr ms"
proof (induction sync)
  case Nil
  show ?case by simp
next
  case (Cons rm sync)
  obtain r room_messages where rm: "rm = (r, room_messages)" by (cases rm)
  from Cons obtain ms where rest: "collect_messages E T sync = Inr ms" by blast
  show ?case
  proof (cases "is_broadcast_room (broadcast_rooms T) r")
    case True
    then show ?thesis using rest rm by simp
  next
    case False
    then obtain ms' where "handle_texts E T r room_messages = Inr ms'"
      using handle_texts_no_error by blast
    then show ?thesis using rest rm False by simp
  qed
qed

lemma exactly_one_entry:
  assumes "distinct (map entry_key queue)" and "k \<in> entry_key ` set queue"
  shows "length (filter (\<lambda>d. entry_key d = k) queue) = 1"
  using assms
proof (induction queue)
  case Nil
  then show ?case by simp
next
  case (Cons d queue)
  show ?case
  proof (cases "entry_key d = k")
    case True
    from Cons.prems(1) have "entry_key d \<notin> entry_key ` set queue"
      by simp
    with True have "\<forall>x \<in> set queue. entry_key x \<noteq> k"
      by (metis imageI)
    then have "filter (\<lambda>d. entry_key d = k) queue = []"
      by (simp add: filter_empty_conv)
    with True show ?thesis by simp
  next
    case False
    with Cons show ?thesis by auto
  qed
qed

lemma check_and_send_keeps_keys:
  assumes "distinct (map entry_key (message_queue q))"
  shows "distinct (map entry_key (message_queue (fst (snd (check_and_send E T now q)))))
       \<and> receiver (fst (snd (check_and_send E T now q))) = receiver q"
proof -
  have keys: "map entry_key
      (map (\<lambda>d. d\<lparr>md_expiration_generator := f d\<rparr>) (filter P queue)) =
      filter (\<lambda>k. k \<in> entry_key ` set (filter P queue)) (map entry_key (filter P queue))"
    for f P and queue :: "message_data list"
    by (induction queue) (auto simp: entry_key_def)
  have "distinct (map entry_key (filter P (message_queue q)))" for P
    using assms by (simp add: distinct_map_filter)
  then have "distinct (map entry_key (snd (check_and_send_loop T now (message_queue q))))"
    by (simp add: check_and_send_loop_eq keys del: map_map)
  moreover have "receiver (fst (snd (check_and_send E T now q))) = receiver q"
    by (auto simp: check_and_send_def Let_def split: prod.splits)
  ultimately show ?thesis
    using assms by (simp add: check_and_send_buffer)
qed

lemma send_with_retry_step:
  assumes ok: "retriers_ok T"
  shows "\<exists>T'. send_with_retry E qid m T = (None, T', [Enqueue (recipient qid) qid m])
          \<and> holds_entry T' (recipient qid) (qid, m) \<and> retriers_ok T'
          \<and> (\<forall>b. b \<noteq> recipient qid \<longrightarrow> address_to_retrier T' b = address_to_retrier T b)"
proof -
  let ?a = "recipient qid"
  obtain r T1 where g: "get_retrier T ?a = (r, T1)" by (cases "get_retrier T ?a")
  define r' where "r' = snd (enqueue E T1 qid m r)"
  define T' where "T' = put_retrier ?a r' T1"
  have rcv: "receiver r = ?a" and dist: "distinct (map entry_key (message_queue r))"
    and live: "\<not> greenlet_ready r" and ok1: "retriers_ok T1"
    and others1: "\<forall>b. b \<noteq> ?a \<longrightarrow> address_to_retrier T1 b = address_to_retrier T b"
    using get_retrier_cases [OF g] ok
    by (auto simp: retriers_ok_def new_retry_queue_def put_retrier_def split: if_splits)
  have none: "fst (enqueue E T1 qid m r) = None"
    by (rule enqueue_ok) (simp add: rcv)
  have run: "send_with_retry E qid m T = (None, T', [Enqueue ?a qid m])"
    using none
    by (cases "enqueue E T1 qid m r") (simp add: send_with_retry_def g T'_def r'_def)
  have keys: "entry_key ` set (message_queue r') = insert (qid, m) (entry_key ` set (message_queue r))"
    unfolding r'_def by (rule enqueue_keys) (simp add: rcv)
  have rcv': "receiver r' = ?a"
    by (simp add: r'_def receiver_enqueue rcv)
  have dist': "distinct (map entry_key (message_queue r'))"
    unfolding r'_def using dist by (rule enqueue_distinct)
  have live': "\<not> greenlet_ready r'"
    by (simp add: r'_def enqueue_greenlet_ready live)
  have ok': "retriers_ok T'"
    unfolding T'_def using ok1 rcv' dist' by (rule retriers_ok_put)
  have here: "holds_entry T' ?a (qid, m)"
    by (simp add: T'_def holds_entry_put live' keys)
  have others: "\<forall>b. b \<noteq> ?a \<longrightarrow> address_to_retrier T' b = address_to_retrier T b"
    using others1 by (simp add: T'_def put_retrier_def)
  show ?thesis using run ok' here others by blast
qed

lemma example_peer_binary: "is_binary_address example_peer"
  by (simp add: is_binary_address_def example_peer_def)

lemma example_retriers_ok: "retriers_ok example_transport"
  by (simp add: retriers_ok_def example_transport_def)

lemma length_hex_is_letter: "length (hex_is_letter a) = 2 * length a"
  by (induction a) (simp_all add: hex_is_letter_def)

lemma to_checksum_address_binary:
  "is_binary_address a \<Longrightarrow> to_checksum_address_error a = None"
  by (simp add: to_checksum_address_error_def is_binary_address_def length_hex_is_letter)

lemma to_checksum_address_error_cases:
  "to_checksum_address_error a = None \<or> to_checksum_address_error a = Some TypeError"
  by (simp add: to_checksum_address_error_def)

text \<open>
  What \<^verbatim>\<open>send_async\<close> does in a transport whose retriers are well formed: it raises
  \<^verbatim>\<open>ValueError\<close> exactly when the recipient is not a binary address and formatting it
  does not raise, or the recipient is a binary address and the message is a
  \<^verbatim>\<open>Delivered\<close>, \<^verbatim>\<open>Ping\<close> or \<^verbatim>\<open>Pong\<close>; it raises \<^verbatim>\<open>TypeError\<close> exactly when the
  recipient is not a binary address and formatting it raises; in these cases the transport
  is unchanged and \<^verbatim>\<open>enqueue\<close> is not called. Otherwise it returns normally after one call
  of \<^verbatim>\<open>enqueue\<close> on the retrier of the recipient, which then buffers the pair.
\<close>

lemma send_async_outcome:
  assumes "retriers_ok T"
  shows "(fst (send_async E qid m T) = Some ValueError \<longleftrightarrow>
            \<not> is_binary_address (recipient qid) \<and>
              to_checksum_address_error (recipient qid) = None \<or>
            is_binary_address (recipient qid) \<and> isinstance_Delivered_Ping_Pong m)
       \<and> (fst (send_async E qid m T) = Some TypeError \<longleftrightarrow>
            \<not> is_binary_address (recipient qid) \<and>
              to_checksum_address_error (recipient qid) = Some TypeError)
       \<and> (\<not> is_binary_address (recipient qid) \<or> isinstance_Delivered_Ping_Pong m \<longrightarrow>
            snd (send_async E qid m T) = (T, []))
       \<and> (is_binary_address (recipient qid) \<and> \<not> isinstance_Delivered_Ping_Pong m \<longrightarrow>
            (\<exists>T'. send_async E qid m T = (None, T', [Enqueue (recipient qid) qid m])
               \<and> holds_entry T' (recipient qid) (qid, m) \<and> retriers_ok T'
               \<and> (\<forall>b. b \<noteq> recipient qid \<longrightarrow>
                     address_to_retrier T' b = address_to_retrier T b)))"
proof (cases "is_binary_address (recipient qid)")
  case False
  then show ?thesis
    using to_checksum_address_error_cases [of "recipient qid"]
    by (auto simp: send_async_def)
next
  case True
  note fmt = to_checksum_address_binary [OF True]
  show ?thesis
  proof (cases "isinstance_Delivered_Ping_Pong m")
    case dpp: True
    with True show ?thesis by (simp add: send_async_def)
  next
    case False
    from send_with_retry_step [OF assms, of E qid m]
    obtain T' where run: "send_with_retry E qid m T = (None, T', [Enqueue (recipient qid) qid m])"
      and rest: "holds_entry T' (recipient qid) (qid, m)" "retriers_ok T'"
        "\<forall>b. b \<noteq> recipient qid \<longrightarrow> address_to_retrier T' b = address_to_retrier T b"
      by blast
    have "send_async E qid m T = (None, T', [Enqueue (recipient qid) qid m])"
      using True False fmt run by (simp add: send_async_def)
    with True False rest show ?thesis by auto
  qed
qed

lemma long_recipient_format:
  "to_checksum_address_error (replicate 33 255) = Some TypeError"
proof -
  have "hex_is_letter (replicate n 255) = replicate (2 * n) True" for n
    by (induction n) (simp_all add: hex_is_letter_def)
  then show ?thesis
    by (simp add: to_checksum_address_error_def list_ex_iff)
qed

text \<open>
  C8. \<^verbatim>\<open>send_async\<close> is meant to raise \<^verbatim>\<open>ValueError\<close> for a recipient that is not a
  binary address, and it does whenever the address can be formatted for the error message
  (\<open>send_async_outcome\<close>). For a recipient of 33 bytes \<^verbatim>\<open>0xff\<close> the formatting raises
  first: \<^verbatim>\<open>send_async\<close> ends with \<^verbatim>\<open>TypeError\<close>, not with \<^verbatim>\<open>ValueError\<close>; nothing is
  enqueued.
\<close>

theorem send_async_type_error:
  "\<not> is_binary_address (recipient long_recipient)
   \<and> send_async example_env long_recipient transfer_message example_transport =
       (Some TypeError, example_transport, [])"
  by (simp add: send_async_def long_recipient_def is_binary_address_def long_recipient_format)

theorem send_async_examples:
  "fst (send_async example_env channel_queue transfer_message example_transport) = None
   \<and> send_async example_env channel_queue (Ping 1 []) example_transport =
       (Some ValueError, example_transport, [])
   \<and> send_async example_env (QueueIdentifier [1, 2] CANONICAL_IDENTIFIER_UNORDERED_QUEUE)
       transfer_message example_transport = (Some ValueError, example_transport, [])"
proof -
  have a: "is_binary_address (recipient channel_queue)"
    by (simp add: channel_queue_def example_peer_binary)
  have b: "\<not> isinstance_Delivered_Ping_Pong transfer_message"
    by (simp add: transfer_message_def)
  have 1: "fst (send_async example_env channel_queue transfer_message example_transport) = None"
    using send_async_outcome [OF example_retriers_ok, of example_env channel_queue
        transfer_message] a b by auto
  have 2: "send_async example_env channel_queue (Ping 1 []) example_transport =
       (Some ValueError, example_transport, [])"
    using a by (simp add: send_async_def)
  have 3: "send_async example_env (QueueIdentifier [1, 2] CANONICAL_IDENTIFIER_UNORDERED_QUEUE)
       transfer_message example_transport = (Some ValueError, example_transport, [])"
    by (simp add: send_async_def is_binary_address_def to_checksum_address_error_def
        hex_is_letter_def)
  from 1 2 3 show ?thesis by - (intro conjI; assumption)
qed

text \<open>
  C1. When the transport is running (and its retriers are well formed),
  \<^verbatim>\<open>_handle_sync_messages\<close> returns normally; its effects are, for the accepted messages
  in order, one call of \<^verbatim>\<open>enqueue\<close> for each message that is a \<^verbatim>\<open>Processed\<close> or a
  \<^verbatim>\<open>SignedRetrieableMessage\<close> with a sender, and nothing for the others, followed by the
  application's \<^verbatim>\<open>on_messages\<close> with all accepted messages. The call for such a message
  is made on the retrier of its sender, with the unordered queue identifier and the signed
  \<^verbatim>\<open>Delivered\<close> that carries the \<^verbatim>\<open>message_identifier\<close> of the message; afterwards the
  retrier stored for the sender buffers exactly one entry with that identifier and message.
\<close>

theorem handle_sync_messages_delivered:
  assumes "\<not> stop_event T" and "raiden_address T \<noteq> None" and "retriers_ok T"
  shows "\<exists>all_messages T'.
      collect_messages E T sync_messages = Inr all_messages
    \<and> handle_sync_messages E sync_messages T =
        (None, all_messages \<noteq> [], T',
         concat (map (delivered_events E) all_messages) @ [OnMessages all_messages])
    \<and> (\<forall>m \<in> set all_messages. needs_delivered E m \<longrightarrow>
         (\<exists>a i r. sender E m = Some a \<and> message_identifier m = Some i
            \<and> delivered_events E m =
                [Enqueue a (QueueIdentifier a CANONICAL_IDENTIFIER_UNORDERED_QUEUE)
                   (Delivered i (signer E (Delivered i EMPTY_SIGNATURE)))]
            \<and> address_to_retrier T' a = Some r \<and> receiver r = a
            \<and> length (filter
                 (\<lambda>d. md_queue_identifier d =
                        QueueIdentifier a CANONICAL_IDENTIFIER_UNORDERED_QUEUE \<and>
                      md_message d = Delivered i (signer E (Delivered i EMPTY_SIGNATURE)))
                 (message_queue r)) = 1))
    \<and> (\<forall>m \<in> set all_messages. \<not> needs_delivered E m \<longrightarrow> delivered_events E m = [])
    \<and> retriers_ok T'"
proof -
  obtain ms where collect: "collect_messages E T sync_messages = Inr ms"
    using collect_messages_no_error by blast
  from acknowledge_all [OF assms(3), of E ms]
  obtain T' where ack: "acknowledge E ms T = (None, T', concat (map (delivered_events E) ms))"
    and ok': "retriers_ok T'"
    and held: "\<forall>m \<in> set ms. \<forall>a i. needs_delivered E m \<and> sender E m = Some a \<and>
                message_identifier m = Some i \<longrightarrow>
                holds_entry T' a
                  (QueueIdentifier a CANONICAL_IDENTIFIER_UNORDERED_QUEUE,
                   Delivered i (signer E (Delivered i EMPTY_SIGNATURE)))"
    by blast
  have run: "handle_sync_messages E sync_messages T =
        (None, ms \<noteq> [], T', concat (map (delivered_events E) ms) @ [OnMessages ms])"
    using assms(1,2) collect ack by (simp add: handle_sync_messages_def)
  have one: "\<exists>a i r. sender E m = Some a \<and> message_identifier m = Some i
            \<and> delivered_events E m =
                [Enqueue a (QueueIdentifier a CANONICAL_IDENTIFIER_UNORDERED_QUEUE)
                   (Delivered i (signer E (Delivered i EMPTY_SIGNATURE)))]
            \<and> address_to_retrier T' a = Some r \<and> receiver r = a
            \<and> length (filter
                 (\<lambda>d. md_queue_identifier d =
                        QueueIdentifier a CANONICAL_IDENTIFIER_UNORDERED_QUEUE \<and>
                      md_message d = Delivered i (signer E (Delivered i EMPTY_SIGNATURE)))
                 (message_queue r)) = 1"
    if m: "m \<in> set ms" and need: "needs_delivered E m" for m
  proof -
    from need obtain a i where s: "sender E m = Some a" and i: "message_identifier m = Some i"
      by (rule needs_delivered_fields)
    let ?k = "(QueueIdentifier a CANONICAL_IDENTIFIER_UNORDERED_QUEUE,
               Delivered i (signer E (Delivered i EMPTY_SIGNATURE)))"
    have "holds_entry T' a ?k" using held m need s i by blast
    then obtain r where r: "address_to_retrier T' a = Some r"
      and k: "?k \<in> entry_key ` set (message_queue r)"
      by (auto simp: holds_entry_def)
    from ok' r have rcv: "receiver r = a" and dist: "distinct (map entry_key (message_queue r))"
      by (auto simp: retriers_ok_def)
    have "length (filter (\<lambda>d. entry_key d = ?k) (message_queue r)) = 1"
      using dist k by (rule exactly_one_entry)
    then have count: "length (filter
                 (\<lambda>d. md_queue_identifier d =
                        QueueIdentifier a CANONICAL_IDENTIFIER_UNORDERED_QUEUE \<and>
                      md_message d = Delivered i (signer E (Delivered i EMPTY_SIGNATURE)))
                 (message_queue r)) = 1"
      by (simp add: entry_key_def)
    have ev: "delivered_events E m = [Enqueue a (fst ?k) (snd ?k)]"
      using need s i by (simp add: delivered_events_def)
    show ?thesis using s i ev r rcv count by auto
  qed
  have none: "\<forall>m \<in> set ms. \<not> needs_delivered E m \<longrightarrow> delivered_events E m = []"
    by (simp add: delivered_events_def)
  show ?thesis using collect run one none ok' by blast
qed

lemma example_collect:
  "collect_messages example_env example_transport example_sync = Inr [Processed 7 [9]]"
  by (simp add: example_sync_def handle_text_def is_broadcast_room_def
      get_room_ids_for_address_def room_is_private_def example_env_def
      example_transport_def private_room_def example_peer_def)

theorem handle_sync_messages_delivered_witness:
  "\<not> stop_event example_transport \<and> raiden_address example_transport \<noteq> None
   \<and> retriers_ok example_transport
   \<and> collect_messages example_env example_transport example_sync = Inr [Processed 7 [9]]
   \<and> needs_delivered example_env (Processed 7 [9])
   \<and> (\<exists>T'. handle_sync_messages example_env example_sync example_transport =
        (None, True, T',
         [Enqueue example_peer unordered_queue (Delivered 7 [7]), OnMessages [Processed 7 [9]]]))"
proof -
  have pre: "\<not> stop_event example_transport" "raiden_address example_transport \<noteq> None"
    by (simp_all add: example_transport_def)
  have need: "needs_delivered example_env (Processed 7 [9])"
    by (simp add: needs_delivered_def example_env_def example_peer_def)
  have ev: "delivered_events example_env (Processed 7 [9]) =
      [Enqueue example_peer unordered_queue (Delivered 7 [7])]"
    using need by (simp add: delivered_events_def unordered_queue_def example_env_def)
  from handle_sync_messages_delivered [OF pre example_retriers_ok, of example_env example_sync]
  obtain ms T' where c: "collect_messages example_env example_transport example_sync = Inr ms"
    and h: "handle_sync_messages example_env example_sync example_transport =
        (None, ms \<noteq> [], T',
         concat (map (delivered_events example_env) ms) @ [OnMessages ms])"
    by blast
  from c have ms: "ms = [Processed 7 [9]]"
    by (simp add: example_collect)
  have "handle_sync_messages example_env example_sync example_transport =
        (None, True, T',
         [Enqueue example_peer unordered_queue (Delivered 7 [7]), OnMessages [Processed 7 [9]]])"
    using h by (simp add: ms ev)
  then have run: "\<exists>T'. handle_sync_messages example_env example_sync example_transport =
        (None, True, T',
         [Enqueue example_peer unordered_queue (Delivered 7 [7]), OnMessages [Processed 7 [9]]])"
    by blast
  from pre example_retriers_ok example_collect need run show ?thesis
    by - (intro conjI; assumption)
qed

section \<open>Room creation: results\<close>

lemma my_place_or_yours_min: "my_place_or_yours a b = min a b"
  by (simp add: my_place_or_yours_def min_def)

lemma my_place_or_yours_commute: "my_place_or_yours a b = my_place_or_yours b a"
  by (simp add: my_place_or_yours_min min.commute)

lemma not_creator_no_room:
  assumes "raiden_address T = Some our" and "my_place_or_yours our a \<noteq> our"
  shows "\<exists>e. maybe_create_room_for_address E T a = (e, None, T, [])"
  using assms
  by (auto simp: maybe_create_room_for_address_def Let_def split: sum.splits option.splits)

lemma create_room_for_address_creates:
  assumes "filter (\<lambda>user. validate_userid_signature E user = Some a) (search_user_directory E a) \<noteq> []"
  shows "CreateRoom (filter (\<lambda>user. validate_userid_signature E user = Some a)
            (search_user_directory E a))
           \<in> set (snd (snd (snd (create_room_for_address E T a))))"
  using assms
  by (auto simp: create_room_for_address_def Let_def
      split: prod.splits poll.splits option.splits if_splits)

text \<open>
  C3. For two nodes with distinct addresses, each asked to create the room for the other:
  both elect the same creator, the node with the smaller address in the lexicographic
  order, so exactly one of them finds itself elected. The node that is not elected
  returns no room, leaves its transport unchanged and calls nothing; hence the two never
  both call \<^verbatim>\<open>create_room\<close>, and a node that calls it has the smaller address. The elected
  node calls \<^verbatim>\<open>create_room\<close> when it is running, has no room for the peer yet and finds
  a user of the peer with a valid signature.
\<close>

theorem room_creator_election:
  assumes "raiden_address TA = Some A" and "raiden_address TB = Some B" and "A \<noteq> B"
  shows "my_place_or_yours A B = my_place_or_yours B A
       \<and> my_place_or_yours A B = (if A < B then A else B)
       \<and> ((my_place_or_yours A B = A) \<noteq> (my_place_or_yours B A = B))
       \<and> (my_place_or_yours A B \<noteq> A \<longrightarrow>
            (\<exists>e. maybe_create_room_for_address EA TA B = (e, None, TA, [])))
       \<and> (my_place_or_yours B A \<noteq> B \<longrightarrow>
            (\<exists>e. maybe_create_room_for_address EB TB A = (e, None, TB, [])))
       \<and> \<not> (creates_room (snd (snd (snd (maybe_create_room_for_address EA TA B)))) \<and>
            creates_room (snd (snd (snd (maybe_create_room_for_address EB TB A)))))
       \<and> (creates_room (snd (snd (snd (maybe_create_room_for_address EA TA B)))) \<longrightarrow> A < B)
       \<and> (A < B \<and> \<not> stop_event TA \<and> get_room_for_address TA B False = Inr None \<and>
          filter (\<lambda>user. validate_userid_signature EA user = Some B)
            (search_user_directory EA B) \<noteq> [] \<longrightarrow>
          CreateRoom (filter (\<lambda>user. validate_userid_signature EA user = Some B)
            (search_user_directory EA B))
           \<in> set (snd (snd (snd (maybe_create_room_for_address EA TA B)))))"
proof -
  have c: "my_place_or_yours A B = my_place_or_yours B A"
    by (rule my_place_or_yours_commute)
  have m: "my_place_or_yours A B = (if A < B then A else B)"
    using assms(3) by (auto simp: my_place_or_yours_def)
  have x: "(my_place_or_yours A B = A) \<noteq> (my_place_or_yours B A = B)"
    using assms(3) by (auto simp: my_place_or_yours_def)
  have na: "my_place_or_yours A B \<noteq> A \<longrightarrow>
            (\<exists>e. maybe_create_room_for_address EA TA B = (e, None, TA, []))"
    using not_creator_no_room [OF assms(1)] by blast
  have nb: "my_place_or_yours B A \<noteq> B \<longrightarrow>
            (\<exists>e. maybe_create_room_for_address EB TB A = (e, None, TB, []))"
    using not_creator_no_room [OF assms(2)] by blast
  have ca: "creates_room (snd (snd (snd (maybe_create_room_for_address EA TA B)))) \<longrightarrow>
      my_place_or_yours A B = A"
    using na by (auto simp: creates_room_def)
  have cb: "creates_room (snd (snd (snd (maybe_create_room_for_address EB TB A)))) \<longrightarrow>
      my_place_or_yours B A = B"
    using nb by (auto simp: creates_room_def)
  have both: "\<not> (creates_room (snd (snd (snd (maybe_create_room_for_address EA TA B)))) \<and>
            creates_room (snd (snd (snd (maybe_create_room_for_address EB TB A)))))"
    using ca cb x by blast
  have lt: "creates_room (snd (snd (snd (maybe_create_room_for_address EA TA B)))) \<longrightarrow> A < B"
    using ca m assms(3) by (auto split: if_splits)
  have go: "A < B \<and> \<not> stop_event TA \<and> get_room_for_address TA B False = Inr None \<and>
          filter (\<lambda>user. validate_userid_signature EA user = Some B)
            (search_user_directory EA B) \<noteq> [] \<longrightarrow>
          CreateRoom (filter (\<lambda>user. validate_userid_signature EA user = Some B)
            (search_user_directory EA B))
           \<in> set (snd (snd (snd (maybe_create_room_for_address EA TA B))))"
    using create_room_for_address_creates [of EA B TA] assms(1) m
    by (auto simp: maybe_create_room_for_address_def Let_def)
  from c m x na nb both lt go show ?thesis
    by - (intro conjI; assumption)
qed

lemma example_node_less: "example_node < example_peer"
  by (simp add: example_node_def example_peer_def numeral_eq_Suc)

lemma lonely_no_room: "get_room_for_address lonely_transport example_peer False = Inr None"
  by (simp add: get_room_for_address_def room_candidates_def get_room_ids_for_address_def
      List.map_filter_simps lonely_transport_def example_transport_def example_peer_def)

theorem room_creator_election_witness:
  "raiden_address lonely_transport = Some example_node
   \<and> raiden_address peer_transport = Some example_peer
   \<and> example_node \<noteq> example_peer
   \<and> my_place_or_yours example_node example_peer = example_node
   \<and> my_place_or_yours example_peer example_node = example_node
   \<and> CreateRoom [''@peer:server'']
       \<in> set (snd (snd (snd (maybe_create_room_for_address example_env lonely_transport
            example_peer))))
   \<and> (\<exists>e. maybe_create_room_for_address example_env peer_transport example_node =
        (e, None, peer_transport, []))"
proof -
  have a: "raiden_address lonely_transport = Some example_node"
    by (simp add: lonely_transport_def example_transport_def)
  have b: "raiden_address peer_transport = Some example_peer"
    by (simp add: peer_transport_def)
  have ne: "example_node \<noteq> example_peer"
    using example_node_less by simp
  note election = room_creator_election [OF a b ne, of example_env example_env]
  have e1: "my_place_or_yours example_node example_peer =
      my_place_or_yours example_peer example_node"
    using election by (elim conjE)
  have e2: "my_place_or_yours example_node example_peer =
      (if example_node < example_peer then example_node else example_peer)"
    using election by (elim conjE)
  have e5: "my_place_or_yours example_peer example_node \<noteq> example_peer \<longrightarrow>
      (\<exists>e. maybe_create_room_for_address example_env peer_transport example_node =
        (e, None, peer_transport, []))"
    using election by (elim conjE)
  have e8: "example_node < example_peer \<and> \<not> stop_event lonely_transport \<and>
      get_room_for_address lonely_transport example_peer False = Inr None \<and>
      filter (\<lambda>user. validate_userid_signature example_env user = Some example_peer)
        (search_user_directory example_env example_peer) \<noteq> [] \<longrightarrow>
      CreateRoom (filter (\<lambda>user. validate_userid_signature example_env user = Some example_peer)
        (search_user_directory example_env example_peer))
        \<in> set (snd (snd (snd (maybe_create_room_for_address example_env lonely_transport
            example_peer))))"
    using election by (elim conjE)
  have m1: "my_place_or_yours example_node example_peer = example_node"
    using e2 example_node_less by simp
  have m2: "my_place_or_yours example_peer example_node = example_node"
    using e1 m1 by simp
  have users: "filter (\<lambda>user. validate_userid_signature example_env user = Some example_peer)
      (search_user_directory example_env example_peer) = [''@peer:server'']"
    by (simp add: example_env_def)
  have stop: "\<not> stop_event lonely_transport"
    by (simp add: lonely_transport_def example_transport_def)
  have cr: "CreateRoom [''@peer:server'']
       \<in> set (snd (snd (snd (maybe_create_room_for_address example_env lonely_transport
            example_peer))))"
    using e8 example_node_less stop lonely_no_room users by simp
  have no: "\<exists>e. maybe_create_room_for_address example_env peer_transport example_node =
        (e, None, peer_transport, [])"
    using e5 m2 ne by simp
  from a b ne m1 m2 cr no show ?thesis
    by - (intro conjI; assumption)
qed

end
